theory Spec2Isabelle
  imports Main
begin

section \<open>Canvas to Notion synchronisation: the model\<close>

text \<open>
  The script \<^verbatim>\<open>main.py\<close> is one linear procedure: it loads the Canvas ids already
  stored in Notion, computes a seven day window from the clock, walks the active
  courses and their upcoming assignments, and creates one Notion page for every
  assignment that passes the filters and is not yet known.

  The two client libraries, the clock, the configuration module \<^verbatim>\<open>privVars\<close> and
  \<^verbatim>\<open>datetime.fromisoformat\<close> are not part of the script. They are parameters of the
  model: the Notion client is a pair of state transformers over an arbitrary world
  type, the Canvas client is the data it enumerates, the clock is the instant it
  returned, and the parser is a function from strings to a parse result.
\<close>

subsection \<open>Exceptions and outcomes\<close>

text \<open>
  An exception is a value. \<open>ClientError\<close> stands for whatever a client library raised.
  A computation either finishes in a state (\<open>Done\<close>) or is left by an exception that
  nobody caught (\<open>Raised\<close>); the state at the moment of the raise is kept, so that the
  calls issued before it can be inspected.
\<close>

datatype exn = ClientError string | ValueError | TypeError | OverflowError | KeyError

datatype 's result = Done 's | Raised exn 's

fun state_of :: "'s result \<Rightarrow> 's" where
  "state_of (Done s) = s"
| "state_of (Raised e s) = s"

fun is_Done :: "'s result \<Rightarrow> bool" where
  "is_Done (Done s) = True"
| "is_Done (Raised e s) = False"

subsection \<open>Time\<close>

text \<open>
  A \<^verbatim>\<open>datetime\<close> is its wall-clock reading in microseconds since 0001-01-01T00:00:00,
  with the UTC offset in microseconds when it is timezone-aware. Python keeps the
  reading between year 1 and year 9999 and raises \<^verbatim>\<open>OverflowError\<close> when an addition
  leaves that range; comparing an aware with a naive value by \<^verbatim>\<open><=\<close> raises
  \<^verbatim>\<open>TypeError\<close>; two aware values compare by their UTC instants.
\<close>

datatype datetime = Naive int | Aware int int

definition MAX_DATETIME :: int where
  "MAX_DATETIME = 315537897599999999"

definition timedelta_days :: "int \<Rightarrow> int" where
  "timedelta_days d = d * 86400000000"

definition timedelta_minutes :: "int \<Rightarrow> int" where
  "timedelta_minutes m = m * 60000000"

definition timedelta_seconds :: "int \<Rightarrow> int" where
  "timedelta_seconds s = s * 1000000"

fun utc_instant :: "datetime \<Rightarrow> int option" where
  "utc_instant (Naive l) = None"
| "utc_instant (Aware l off) = Some (l - off)"

fun dt_add :: "datetime \<Rightarrow> int \<Rightarrow> exn + datetime" where
  "dt_add (Naive l) delta =
     (if 0 \<le> l + delta \<and> l + delta \<le> MAX_DATETIME then Inr (Naive (l + delta))
      else Inl OverflowError)"
| "dt_add (Aware l off) delta =
     (if 0 \<le> l + delta \<and> l + delta \<le> MAX_DATETIME then Inr (Aware (l + delta) off)
      else Inl OverflowError)"

fun dt_le :: "datetime \<Rightarrow> datetime \<Rightarrow> exn + bool" where
  "dt_le (Aware l1 o1) (Aware l2 o2) = Inr (l1 - o1 \<le> l2 - o2)"
| "dt_le (Naive l1) (Naive l2) = Inr (l1 \<le> l2)"
| "dt_le (Aware l1 o1) (Naive l2) = Inl TypeError"
| "dt_le (Naive l1) (Aware l2 o2) = Inl TypeError"

text \<open>
  \<^verbatim>\<open>now <= due_at <= week_out\<close> is a chained comparison: the second comparison is
  made only when the first one holds.
\<close>

definition in_window :: "datetime \<Rightarrow> datetime \<Rightarrow> datetime \<Rightarrow> exn + bool" where
  "in_window now week_out due =
     (case dt_le now due of
        Inl e \<Rightarrow> Inl e
      | Inr False \<Rightarrow> Inr False
      | Inr True \<Rightarrow> dt_le due week_out)"

subsection \<open>Strings\<close>

text \<open>
  \<^verbatim>\<open>str.replace(old, new)\<close> replaces every occurrence of \<open>old\<close>, scanning from the
  left without overlap; with an empty \<open>old\<close> it puts \<open>new\<close> before every character
  and at the end.
\<close>

function replace :: "string \<Rightarrow> string \<Rightarrow> string \<Rightarrow> string" where
  "replace old new [] = (if old = [] then new else [])"
| "replace old new (c # cs) =
     (if old = [] then new @ c # replace old new cs
      else if take (length old) (c # cs) = old
        then new @ replace old new (drop (length old) (c # cs))
      else c # replace old new cs)"
  by pat_completeness auto
termination
  by (relation "measure (\<lambda>(old, new, s). length s)") auto

text \<open>\<^verbatim>\<open>str(n)\<close> for an integer: decimal digits, with a minus sign when negative.\<close>

definition digit_char :: "nat \<Rightarrow> char" where
  "digit_char d = char_of (48 + d)"

fun str_nat :: "nat \<Rightarrow> string" where
  "str_nat n = (if n < 10 then [digit_char n] else str_nat (n div 10) @ [digit_char (n mod 10)])"

definition str :: "int \<Rightarrow> string" where
  "str i = (if i < 0 then CHR ''-'' # str_nat (nat (- i)) else str_nat (nat i))"

subsection \<open>The source: Canvas\<close>

text \<open>
  The Canvas client hands out lazy paginated lists. Iterating one yields a finite
  number of items and then either ends or raises (a page request failed): a feed is
  the list of items yielded together with the exception that ends it, if any.
\<close>

record course =
  c_id :: int
  c_name :: string

record assignment =
  a_id :: int
  a_name :: string
  due_at :: "string option"
  html_url :: string

type_synonym 'a feed = "'a list \<times> exn option"

record canvas =
  get_courses :: "course feed"
  get_assignments :: "course \<Rightarrow> assignment feed"

subsection \<open>The destination: Notion\<close>

text \<open>
  A page of the data source carries a map of properties. A property of type rich text
  holds a list of text runs, each with its plain text; reading the key
  \<^verbatim>\<open>"rich_text"\<close> of a property of another type raises \<^verbatim>\<open>KeyError\<close>.
  A query response is a dictionary read with \<^verbatim>\<open>.get\<close>, so each of its keys may be
  missing.
\<close>

datatype property = RichText "string list" | OtherProperty

record page =
  properties :: "string \<rightharpoonup> property"

record 'c response =
  results :: "page list option"
  has_more :: "bool option"
  next_cursor :: "'c option"

record dest_record =
  r_parent :: string
  r_name :: string
  r_start :: datetime
  r_end :: datetime
  r_class :: string
  r_ref :: string
  r_status :: string
  r_canvas_id :: string

text \<open>
  The Notion client: \<open>query\<close> is \<^verbatim>\<open>notion.data_sources.query\<close> with its arguments
  \<^verbatim>\<open>data_source_id\<close>, \<^verbatim>\<open>start_cursor\<close> and \<^verbatim>\<open>page_size\<close>; \<open>create\<close> is
  \<^verbatim>\<open>notion.pages.create\<close>. Both act on the world \<open>'w\<close> (the service and the
  network) and either return or raise.
\<close>

record ('w, 'c) notion =
  query :: "'w \<Rightarrow> string \<Rightarrow> 'c option \<Rightarrow> nat \<Rightarrow> (exn + 'c response) \<times> 'w"
  create :: "'w \<Rightarrow> dest_record \<Rightarrow> (exn + unit) \<times> 'w"

text \<open>The configuration imported from \<^verbatim>\<open>privVars\<close>.\<close>

record config =
  name_map :: "string \<rightharpoonup> string"
  NOTION_DATABASE_ID :: string

subsection \<open>Run state and trace\<close>

text \<open>
  The state of a run is the set \<^verbatim>\<open>existing_canvas_ids\<close>, the world, and a trace of
  what the script did to its collaborators: each client call when it is issued, and
  the two log lines that report the outcome of a create call.
\<close>

datatype 'c event =
    QueryCall "'c option" nat
  | GetCourses
  | GetAssignments course
  | CreateCall dest_record
  | Added string
  | CreateFailed string exn

record ('w, 'c) state =
  existing_canvas_ids :: "string set"
  world :: 'w
  trace :: "'c event list"

definition emit :: "'c event \<Rightarrow> ('w, 'c) state \<Rightarrow> ('w, 'c) state" where
  "emit ev st = st\<lparr>trace := trace st @ [ev]\<rparr>"

subsection \<open>Loading the existing ids\<close>

text \<open>
  The body of \<^verbatim>\<open>for page in results\<close>: a page without the property, or with an
  empty list of runs, adds nothing; otherwise the plain text of the first run is added.
\<close>

fun collect_ids :: "page list \<Rightarrow> string set \<Rightarrow> exn + string set" where
  "collect_ids [] ids = Inr ids"
| "collect_ids (p # ps) ids =
     (case properties p ''Canvas ID'' of
        None \<Rightarrow> collect_ids ps ids
      | Some OtherProperty \<Rightarrow> Inl KeyError
      | Some (RichText []) \<Rightarrow> collect_ids ps ids
      | Some (RichText (t # ts)) \<Rightarrow> collect_ids ps (insert t ids))"

text \<open>
  The \<^verbatim>\<open>while True\<close> loop of \<^verbatim>\<open>fetch_existing_canvas_ids\<close>. Nothing bounds the
  number of rounds: a service that keeps answering \<^verbatim>\<open>has_more\<close> keeps the loop
  running, and then the function has no result (\<open>None\<close>).
\<close>

partial_function (option) fetch_loop ::
  "('w, 'c) notion \<Rightarrow> string \<Rightarrow> 'c option \<Rightarrow> ('w, 'c) state \<Rightarrow> ('w, 'c) state result option"
where
  "fetch_loop N dsid cursor st =
     (case query N (world st) dsid cursor 100 of
        (Inl e, w') \<Rightarrow> Some (Raised e ((emit (QueryCall cursor 100) st)\<lparr>world := w'\<rparr>))
      | (Inr resp, w') \<Rightarrow>
          (case collect_ids (case results resp of None \<Rightarrow> [] | Some ps \<Rightarrow> ps)
                  (existing_canvas_ids st) of
             Inl e \<Rightarrow> Some (Raised e ((emit (QueryCall cursor 100) st)\<lparr>world := w'\<rparr>))
           | Inr ids' \<Rightarrow>
               (if has_more resp \<noteq> Some True
                then Some (Done ((emit (QueryCall cursor 100) st)
                                  \<lparr>existing_canvas_ids := ids', world := w'\<rparr>))
                else fetch_loop N dsid (next_cursor resp)
                       ((emit (QueryCall cursor 100) st)
                          \<lparr>existing_canvas_ids := ids', world := w'\<rparr>))))"

definition fetch_existing_canvas_ids ::
  "('w, 'c) notion \<Rightarrow> string \<Rightarrow> 'w \<Rightarrow> ('w, 'c) state result option" where
  "fetch_existing_canvas_ids N dsid w =
     fetch_loop N dsid None \<lparr>existing_canvas_ids = {}, world = w, trace = []\<rparr>"

subsection \<open>The sync pass\<close>

text \<open>
  Iterating a feed: the body runs on each item in turn; an exception that leaves the
  body leaves the loop, and so does the exception that ends the feed.
\<close>

fun for_each :: "('a \<Rightarrow> 's \<Rightarrow> 's result) \<Rightarrow> 'a list \<Rightarrow> exn option \<Rightarrow> 's \<Rightarrow> 's result" where
  "for_each body [] fin st = (case fin of None \<Rightarrow> Done st | Some e \<Rightarrow> Raised e st)"
| "for_each body (x # xs) fin st =
     (case body x st of
        Done st' \<Rightarrow> for_each body xs fin st'
      | Raised e st' \<Rightarrow> Raised e st')"

definition build_record ::
  "config \<Rightarrow> string \<Rightarrow> assignment \<Rightarrow> datetime \<Rightarrow> datetime \<Rightarrow> string \<Rightarrow> dest_record" where
  "build_record cfg class_select a due end_at canvas_id =
     \<lparr>r_parent = NOTION_DATABASE_ID cfg,
      r_name = a_name a,
      r_start = due,
      r_end = end_at,
      r_class = class_select,
      r_ref = html_url a,
      r_status = ''Not started'',
      r_canvas_id = canvas_id\<rparr>"

text \<open>
  The \<^verbatim>\<open>try\<close> block: the create call, then the addition to the set and the
  \<^verbatim>\<open>Added\<close> log line; \<^verbatim>\<open>except Exception\<close> catches what the call raised and
  logs it. Nothing leaves the block.
\<close>

definition try_create ::
  "('w, 'c) notion \<Rightarrow> dest_record \<Rightarrow> ('w, 'c) state \<Rightarrow> ('w, 'c) state" where
  "try_create N rec st =
     (case create N (world st) rec of
        (Inr u, w') \<Rightarrow>
          emit (Added (r_canvas_id rec))
            ((emit (CreateCall rec) st)
               \<lparr>existing_canvas_ids := insert (r_canvas_id rec) (existing_canvas_ids st),
                world := w'\<rparr>)
      | (Inl e, w') \<Rightarrow>
          emit (CreateFailed (r_canvas_id rec) e) ((emit (CreateCall rec) st)\<lparr>world := w'\<rparr>))"

text \<open>
  From \<^verbatim>\<open>canvas_id = str(assignment.id)\<close> to the end of the loop body: the
  duplicate check, the end of the date range, the create.
\<close>

definition sync_decision ::
  "('w, 'c) notion \<Rightarrow> config \<Rightarrow> string \<Rightarrow> assignment \<Rightarrow> datetime \<Rightarrow> ('w, 'c) state
     \<Rightarrow> ('w, 'c) state result" where
  "sync_decision N cfg class_select a due st =
     (if str (a_id a) \<in> existing_canvas_ids st then Done st
      else
        (case dt_add due (timedelta_minutes 30) of
           Inl e \<Rightarrow> Raised e st
         | Inr end_at \<Rightarrow>
             Done (try_create N (build_record cfg class_select a due end_at (str (a_id a))) st)))"

text \<open>The body of \<^verbatim>\<open>for assignment in assignments\<close>.\<close>

definition process_assignment ::
  "('w, 'c) notion \<Rightarrow> (string \<Rightarrow> exn + datetime) \<Rightarrow> config \<Rightarrow> string \<Rightarrow> datetime \<Rightarrow> datetime
     \<Rightarrow> assignment \<Rightarrow> ('w, 'c) state \<Rightarrow> ('w, 'c) state result" where
  "process_assignment N parse cfg class_select now week_out a st =
     (case due_at a of
        None \<Rightarrow> Done st
      | Some s \<Rightarrow>
          (if s = [] then Done st
           else
             (case parse (replace ''Z'' ''+00:00'' s) of
                Inl e \<Rightarrow> Raised e st
              | Inr due \<Rightarrow>
                  (case in_window now week_out due of
                     Inl e \<Rightarrow> Raised e st
                   | Inr inside \<Rightarrow>
                       (if \<not> inside then Done st
                        else sync_decision N cfg class_select a due st)))))"

text \<open>The body of \<^verbatim>\<open>for course in courses\<close>.\<close>

definition process_course ::
  "('w, 'c) notion \<Rightarrow> canvas \<Rightarrow> (string \<Rightarrow> exn + datetime) \<Rightarrow> config \<Rightarrow> datetime \<Rightarrow> datetime
     \<Rightarrow> course \<Rightarrow> ('w, 'c) state \<Rightarrow> ('w, 'c) state result" where
  "process_course N C parse cfg now week_out c st =
     (case name_map cfg (c_name c) of
        None \<Rightarrow> Done st
      | Some class_select \<Rightarrow>
          for_each (process_assignment N parse cfg class_select now week_out)
            (fst (get_assignments C c)) (snd (get_assignments C c))
            (emit (GetAssignments c) st))"

text \<open>
  Everything after the baseline is loaded: the window, the course iterator, the loop.
  \<open>now\<close> is the UTC reading of the clock, \<^verbatim>\<open>datetime.now(timezone.utc)\<close>.
\<close>

definition sync_pass ::
  "('w, 'c) notion \<Rightarrow> canvas \<Rightarrow> (string \<Rightarrow> exn + datetime) \<Rightarrow> config \<Rightarrow> int
     \<Rightarrow> ('w, 'c) state \<Rightarrow> ('w, 'c) state result" where
  "sync_pass N C parse cfg now st =
     (case dt_add (Aware now 0) (timedelta_days 7) of
        Inl e \<Rightarrow> Raised e st
      | Inr week_out \<Rightarrow>
          for_each (process_course N C parse cfg (Aware now 0) week_out)
            (fst (get_courses C)) (snd (get_courses C)) (emit GetCourses st))"

text \<open>The whole script. \<open>None\<close>: the baseline loop never ends.\<close>

definition run ::
  "('w, 'c) notion \<Rightarrow> canvas \<Rightarrow> (string \<Rightarrow> exn + datetime) \<Rightarrow> config \<Rightarrow> int \<Rightarrow> 'w
     \<Rightarrow> ('w, 'c) state result option" where
  "run N C parse cfg now w =
     (case fetch_existing_canvas_ids N (NOTION_DATABASE_ID cfg) w of
        None \<Rightarrow> None
      | Some (Raised e st) \<Rightarrow> Some (Raised e st)
      | Some (Done st) \<Rightarrow> Some (sync_pass N C parse cfg now st))"

subsection \<open>Reading a trace\<close>

fun create_calls :: "'c event list \<Rightarrow> string list" where
  "create_calls [] = []"
| "create_calls (CreateCall r # es) = r_canvas_id r # create_calls es"
| "create_calls (e # es) = create_calls es"

fun created :: "'c event list \<Rightarrow> string list" where
  "created [] = []"
| "created (Added x # es) = x # created es"
| "created (e # es) = created es"

fun failed :: "'c event list \<Rightarrow> string list" where
  "failed [] = []"
| "failed (CreateFailed x e # es) = x # failed es"
| "failed (e # es) = failed es"

fun fetched :: "'c event list \<Rightarrow> course list" where
  "fetched [] = []"
| "fetched (GetAssignments c # es) = c # fetched es"
| "fetched (e # es) = fetched es"

fun query_calls :: "'c event list \<Rightarrow> ('c option \<times> nat) list" where
  "query_calls [] = []"
| "query_calls (QueryCall c n # es) = (c, n) # query_calls es"
| "query_calls (e # es) = query_calls es"

fun is_query :: "'c event \<Rightarrow> bool" where
  "is_query (QueryCall c n) = True"
| "is_query e = False"

text \<open>
  The discipline of the duplicate check, read off a trace: starting from a set of ids,
  every create call is for an id outside the set, and every id added was outside the
  set before. \<open>dedup_rel\<close> relates a state to a later one whose trace extends it in
  this discipline.
\<close>

fun dedup_ok :: "string set \<Rightarrow> 'c event list \<Rightarrow> bool" where
  "dedup_ok ids [] = True"
| "dedup_ok ids (CreateCall r # es) = (r_canvas_id r \<notin> ids \<and> dedup_ok ids es)"
| "dedup_ok ids (Added x # es) = (x \<notin> ids \<and> dedup_ok (insert x ids) es)"
| "dedup_ok ids (e # es) = dedup_ok ids es"

definition dedup_rel :: "('w, 'c) state \<Rightarrow> ('w, 'c) state \<Rightarrow> bool" where
  "dedup_rel st st' =
     (\<exists>es. trace st' = trace st @ es
        \<and> existing_canvas_ids st' = existing_canvas_ids st \<union> set (created es)
        \<and> dedup_ok (existing_canvas_ids st) es
        \<and> (failed es = [] \<longrightarrow> create_calls es = created es))"


text \<open>
  \<open>canvas_id\<close> is the script's \<^verbatim>\<open>canvas_id = str(assignment.id)\<close>. An assignment
  is eligible when it passes the due-date and window filters and the end of its date
  range can be computed; \<open>planned_record\<close> is the record the script then builds for
  it. \<open>within S\<close> relates a state to a later one whose create calls and added ids all
  lie in \<open>S\<close>.
\<close>

abbreviation canvas_id :: "assignment \<Rightarrow> string" where
  "canvas_id a \<equiv> str (a_id a)"

definition planned_record ::
  "(string \<Rightarrow> exn + datetime) \<Rightarrow> config \<Rightarrow> string \<Rightarrow> assignment \<Rightarrow> dest_record option" where
  "planned_record parse cfg cls a =
     (case due_at a of
        None \<Rightarrow> None
      | Some s \<Rightarrow>
          (case parse (replace ''Z'' ''+00:00'' s) of
             Inl e \<Rightarrow> None
           | Inr due \<Rightarrow>
               (case dt_add due (timedelta_minutes 30) of
                  Inl e \<Rightarrow> None
                | Inr end_at \<Rightarrow> Some (build_record cfg cls a due end_at (canvas_id a)))))"

definition eligible ::
  "(string \<Rightarrow> exn + datetime) \<Rightarrow> datetime \<Rightarrow> datetime \<Rightarrow> assignment \<Rightarrow> bool" where
  "eligible parse now wk a =
     (case due_at a of
        None \<Rightarrow> False
      | Some s \<Rightarrow>
          s \<noteq> [] \<and>
          (case parse (replace ''Z'' ''+00:00'' s) of
             Inl e \<Rightarrow> False
           | Inr due \<Rightarrow>
               in_window now wk due = Inr True \<and>
               (case dt_add due (timedelta_minutes 30) of Inl e \<Rightarrow> False | Inr end_at \<Rightarrow> True)))"

definition within :: "string set \<Rightarrow> ('w, 'c) state \<Rightarrow> ('w, 'c) state \<Rightarrow> bool" where
  "within S st st' =
     (\<exists>es. trace st' = trace st @ es \<and> set (create_calls es) \<subseteq> S
        \<and> existing_canvas_ids st' \<subseteq> existing_canvas_ids st \<union> S)"


text \<open>
  Two runs in succession. \<open>passes_filters\<close> says that an assignment gets past the
  due-date and window filters and so reaches the duplicate check; \<open>settled a st\<close> that
  its id is in the set of \<open>st\<close> or a create call for it failed on the way to \<open>st\<close>;
  \<open>idle G\<close> relates a state whose set holds \<open>G\<close> to a later one with the same set and
  no create call in between. \<open>run_twice\<close> starts the script a second time, at the
  clock reading \<open>T2\<close>, on the destination the first run left behind.
\<close>

definition passes_filters ::
  "(string \<Rightarrow> exn + datetime) \<Rightarrow> datetime \<Rightarrow> datetime \<Rightarrow> assignment \<Rightarrow> bool" where
  "passes_filters parse now wk a =
     (case due_at a of
        None \<Rightarrow> False
      | Some s \<Rightarrow>
          s \<noteq> [] \<and>
          (case parse (replace ''Z'' ''+00:00'' s) of
             Inl e \<Rightarrow> False
           | Inr due \<Rightarrow> in_window now wk due = Inr True))"

definition settled :: "assignment \<Rightarrow> ('w, 'c) state \<Rightarrow> bool" where
  "settled a st =
     (canvas_id a \<in> existing_canvas_ids st \<or> canvas_id a \<in> set (failed (trace st)))"

definition idle :: "string set \<Rightarrow> ('w, 'c) state \<Rightarrow> ('w, 'c) state \<Rightarrow> bool" where
  "idle G st st' =
     (G \<subseteq> existing_canvas_ids st \<longrightarrow>
        existing_canvas_ids st' = existing_canvas_ids st
        \<and> (\<exists>es. trace st' = trace st @ es \<and> create_calls es = []))"

definition run_twice ::
  "('w, 'c) notion \<Rightarrow> canvas \<Rightarrow> (string \<Rightarrow> exn + datetime) \<Rightarrow> config \<Rightarrow> int \<Rightarrow> int \<Rightarrow> 'w
     \<Rightarrow> ('w, 'c) state result option" where
  "run_twice N C parse cfg T1 T2 w =
     (case run N C parse cfg T1 w of
        None \<Rightarrow> None
      | Some r \<Rightarrow> run N C parse cfg T2 (world (state_of r)))"


subsection \<open>Reading the loader\<close>

text \<open>
  The rounds of the baseline loop: \<open>reaches_round N dsid w cursor st\<close> holds when the
  loop, started on the world \<open>w\<close>, stands at the head of a round with this cursor and
  this state, every earlier round having returned a response that said \<^verbatim>\<open>has_more\<close>.
\<close>

inductive reaches_round ::
  "('w, 'c) notion \<Rightarrow> string \<Rightarrow> 'w \<Rightarrow> 'c option \<Rightarrow> ('w, 'c) state \<Rightarrow> bool"
  for N :: "('w, 'c) notion" and dsid :: string and w :: 'w
where
  first_round: "reaches_round N dsid w None \<lparr>existing_canvas_ids = {}, world = w, trace = []\<rparr>"
| next_round:
    "reaches_round N dsid w cursor st \<Longrightarrow>
     query N (world st) dsid cursor 100 = (Inr resp, w') \<Longrightarrow>
     collect_ids (case results resp of None \<Rightarrow> [] | Some ps \<Rightarrow> ps) (existing_canvas_ids st)
       = Inr ids' \<Longrightarrow>
     has_more resp = Some True \<Longrightarrow>
     reaches_round N dsid w (next_cursor resp)
       ((emit (QueryCall cursor 100) st)\<lparr>existing_canvas_ids := ids', world := w'\<rparr>)"

text \<open>
  What the specification says the loader collects from a list of pages: the plain text
  of the first run of every \<^verbatim>\<open>Canvas ID\<close> that is present and not empty. A page is
  well typed when its \<^verbatim>\<open>Canvas ID\<close>, if it has one, is a rich text.
\<close>

fun stored_ids :: "page list \<Rightarrow> string list" where
  "stored_ids [] = []"
| "stored_ids (p # ps) =
     (case properties p ''Canvas ID'' of
        Some (RichText (t # ts)) \<Rightarrow> t # stored_ids ps
      | _ \<Rightarrow> stored_ids ps)"

definition well_typed :: "page \<Rightarrow> bool" where
  "well_typed p = (properties p ''Canvas ID'' \<noteq> Some OtherProperty)"

text \<open>The number of queries that page through \<open>n\<close> pages from an offset, and the offset a cursor of the simulated store stands for.\<close>

definition rounds :: "nat \<Rightarrow> nat \<Rightarrow> nat" where
  "rounds n off = max 1 ((n - off + 99) div 100)"

definition offset_of :: "nat option \<Rightarrow> nat" where
  "offset_of cursor = (case cursor of None \<Rightarrow> 0 | Some k \<Rightarrow> k)"

subsection \<open>A parser instance\<close>

text \<open>
  The theorems below hold for every parser. To evaluate the script at concrete
  inputs, \<open>fromisoformat\<close> models \<^verbatim>\<open>datetime.fromisoformat\<close> on the shape Canvas
  emits once \<^verbatim>\<open>Z\<close> is replaced, \<^verbatim>\<open>YYYY-MM-DD?HH:MM:SS\<close> with an optional
  \<^verbatim>\<open>+HH:MM\<close> or \<^verbatim>\<open>-HH:MM\<close>, with every field in its calendar range. The
  library accepts further shapes (fractions of a second, a date alone); this model
  answers \<^verbatim>\<open>ValueError\<close> on all of them, and is used only inside its shape and on
  strings that are no date at all.
\<close>

definition digit_of :: "char \<Rightarrow> nat option" where
  "digit_of c =
     (if 48 \<le> (of_char c :: nat) \<and> (of_char c :: nat) \<le> 57 then Some (of_char c - 48) else None)"

fun number :: "string \<Rightarrow> nat \<Rightarrow> nat option" where
  "number [] acc = Some acc"
| "number (c # cs) acc =
     (case digit_of c of None \<Rightarrow> None | Some d \<Rightarrow> number cs (10 * acc + d))"

definition field :: "string \<Rightarrow> nat \<Rightarrow> nat \<Rightarrow> nat option" where
  "field s pos len = number (take len (drop pos s)) 0"

definition is_leap :: "nat \<Rightarrow> bool" where
  "is_leap y = (y mod 4 = 0 \<and> (y mod 100 \<noteq> 0 \<or> y mod 400 = 0))"

definition days_in_month :: "nat \<Rightarrow> nat \<Rightarrow> nat" where
  "days_in_month y m =
     (if m = 2 then (if is_leap y then 29 else 28)
      else if m = 4 \<or> m = 6 \<or> m = 9 \<or> m = 11 then 30 else 31)"

definition days_before_year :: "nat \<Rightarrow> nat" where
  "days_before_year y = (y - 1) * 365 + (y - 1) div 4 - (y - 1) div 100 + (y - 1) div 400"

primrec days_before_month :: "nat \<Rightarrow> nat \<Rightarrow> nat" where
  "days_before_month y 0 = 0"
| "days_before_month y (Suc m) = (if m = 0 then 0 else days_before_month y m + days_in_month y m)"

definition civil_micros :: "nat \<Rightarrow> nat \<Rightarrow> nat \<Rightarrow> nat \<Rightarrow> nat \<Rightarrow> nat \<Rightarrow> int" where
  "civil_micros y m d h mi sec =
     int ((((days_before_year y + days_before_month y m + d - 1) * 24 + h) * 60 + mi) * 60 + sec)
       * 1000000"

definition parse_local :: "string \<Rightarrow> int option" where
  "parse_local s =
     (case (field s 0 4, field s 5 2, field s 8 2, field s 11 2, field s 14 2, field s 17 2) of
        (Some y, Some m, Some d, Some h, Some mi, Some sec) \<Rightarrow>
          (if s ! 4 = CHR ''-'' \<and> s ! 7 = CHR ''-'' \<and> s ! 13 = CHR '':'' \<and> s ! 16 = CHR '':''
              \<and> 1 \<le> y \<and> 1 \<le> m \<and> m \<le> 12 \<and> 1 \<le> d \<and> d \<le> days_in_month y m
              \<and> h < 24 \<and> mi < 60 \<and> sec < 60
           then Some (civil_micros y m d h mi sec) else None)
      | _ \<Rightarrow> None)"

definition parse_offset :: "string \<Rightarrow> int option" where
  "parse_offset s =
     (case (field s 20 2, field s 23 2) of
        (Some hh, Some mm) \<Rightarrow>
          (if (s ! 19 = CHR ''+'' \<or> s ! 19 = CHR ''-'') \<and> s ! 22 = CHR '':'' \<and> hh < 24 \<and> mm < 60
           then Some ((if s ! 19 = CHR ''-'' then - 1 else 1) * int ((hh * 60 + mm) * 60) * 1000000)
           else None)
      | _ \<Rightarrow> None)"

definition fromisoformat :: "string \<Rightarrow> exn + datetime" where
  "fromisoformat s =
     (if length s = 19 then
        (case parse_local s of None \<Rightarrow> Inl ValueError | Some l \<Rightarrow> Inr (Naive l))
      else if length s = 25 then
        (case (parse_local s, parse_offset s) of
           (Some l, Some off) \<Rightarrow> Inr (Aware l off)
         | _ \<Rightarrow> Inl ValueError)
      else Inl ValueError)"

subsection \<open>A destination instance\<close>

text \<open>
  Modelled from the spec: the simulated destination store that the testable
  properties speak of (section 8), answering as section 6 describes the query and
  create endpoints. No such store is part of the repository. Its world is the list of
  stored pages and the number of query and create calls seen so far. A query answers the
  slice of \<open>page_size\<close> pages that starts at the cursor (an offset), says whether more
  follow, and hands out the next offset. A create appends a page whose
  \<^verbatim>\<open>Canvas ID\<close> is the record's id. The calls whose index is listed in \<open>qfail\<close> or
  \<open>cfail\<close> raise instead and leave the pages as they are.
\<close>

record sim_world =
  pages :: "page list"
  n_queries :: nat
  n_creates :: nat

definition page_with_id :: "string \<Rightarrow> page" where
  "page_with_id x = \<lparr>properties = [''Canvas ID'' \<mapsto> RichText [x]]\<rparr>"

definition sim_query ::
  "nat list \<Rightarrow> sim_world \<Rightarrow> string \<Rightarrow> nat option \<Rightarrow> nat \<Rightarrow> (exn + nat response) \<times> sim_world" where
  "sim_query qfail w dsid cursor page_size =
     (if n_queries w \<in> set qfail
      then (Inl (ClientError ''query''), w\<lparr>n_queries := Suc (n_queries w)\<rparr>)
      else
        (Inr \<lparr>results = Some (take page_size (drop (case cursor of None \<Rightarrow> 0 | Some k \<Rightarrow> k) (pages w))),
              has_more = Some ((case cursor of None \<Rightarrow> 0 | Some k \<Rightarrow> k) + page_size < length (pages w)),
              next_cursor =
                (if (case cursor of None \<Rightarrow> 0 | Some k \<Rightarrow> k) + page_size < length (pages w)
                 then Some ((case cursor of None \<Rightarrow> 0 | Some k \<Rightarrow> k) + page_size) else None)\<rparr>,
         w\<lparr>n_queries := Suc (n_queries w)\<rparr>))"

definition sim_create :: "nat list \<Rightarrow> sim_world \<Rightarrow> dest_record \<Rightarrow> (exn + unit) \<times> sim_world" where
  "sim_create cfail w r =
     (if n_creates w \<in> set cfail
      then (Inl (ClientError ''create''), w\<lparr>n_creates := Suc (n_creates w)\<rparr>)
      else (Inr (), w\<lparr>pages := pages w @ [page_with_id (r_canvas_id r)],
                       n_creates := Suc (n_creates w)\<rparr>))"

definition sim_notion :: "nat list \<Rightarrow> nat list \<Rightarrow> (sim_world, nat) notion" where
  "sim_notion qfail cfail = \<lparr>query = sim_query qfail, create = sim_create cfail\<rparr>"

definition sim_store :: "page list \<Rightarrow> sim_world" where
  "sim_store ps = \<lparr>pages = ps, n_queries = 0, n_creates = 0\<rparr>"

subsection \<open>Concrete inputs\<close>

text \<open>
  The inputs at which the theorems are evaluated. The clock reads
  2024-01-01T00:00:00 UTC; one course is in the name map and one is not.
\<close>

definition demo_now :: int where
  "demo_now = 63839664000000000"

definition demo_cfg :: config where
  "demo_cfg = \<lparr>name_map = [''Algebra II'' \<mapsto> ''Math''], NOTION_DATABASE_ID = ''db''\<rparr>"

definition algebra :: course where
  "algebra = \<lparr>c_id = 11, c_name = ''Algebra II''\<rparr>"

definition pottery :: course where
  "pottery = \<lparr>c_id = 12, c_name = ''Pottery''\<rparr>"

definition homework :: "int \<Rightarrow> string \<Rightarrow> assignment" where
  "homework i d =
     \<lparr>a_id = i, a_name = ''Homework'', due_at = Some d, html_url = ''https://canvas.test/hw''\<rparr>"

definition undated :: "int \<Rightarrow> assignment" where
  "undated i =
     \<lparr>a_id = i, a_name = ''Reading'', due_at = None, html_url = ''https://canvas.test/rd''\<rparr>"

definition canvas_of :: "assignment list \<Rightarrow> assignment list \<Rightarrow> canvas" where
  "canvas_of xs ys =
     \<lparr>get_courses = ([pottery, algebra], None),
      get_assignments = (\<lambda>c. if c = algebra then (xs, None) else (ys, None))\<rparr>"

definition empty_state :: "(sim_world, nat) state" where
  "empty_state = \<lparr>existing_canvas_ids = {}, world = sim_store [], trace = []\<rparr>"

definition run_trace :: "('w, 'c) state result option \<Rightarrow> 'c event list" where
  "run_trace r = (case r of None \<Rightarrow> [] | Some x \<Rightarrow> trace (state_of x))"

text \<open>
  The state after the baseline was loaded from an empty store, and the state in which
  the pass stands when it has opened the assignments of \<open>algebra\<close>.
\<close>

definition loaded_empty :: "(sim_world, nat) state" where
  "loaded_empty =
     \<lparr>existing_canvas_ids = {}, world = \<lparr>pages = [], n_queries = 1, n_creates = 0\<rparr>,
      trace = [QueryCall None 100]\<rparr>"

definition stopped_at_algebra :: "(sim_world, nat) state" where
  "stopped_at_algebra =
     \<lparr>existing_canvas_ids = {}, world = \<lparr>pages = [], n_queries = 1, n_creates = 0\<rparr>,
      trace = [QueryCall None 100, GetCourses, GetAssignments algebra]\<rparr>"

text \<open>
  A store of \<open>k\<close> pages with the ids \<open>0\<close> to \<open>k - 1\<close>, and the states of a load of
  101 pages whose second query fails.
\<close>

definition numbered_store :: "nat \<Rightarrow> page list" where
  "numbered_store k = map (\<lambda>n. page_with_id (str (int n))) [0..<k]"

definition after_first_page :: "(sim_world, nat) state" where
  "after_first_page =
     \<lparr>existing_canvas_ids = set (stored_ids (take 100 (numbered_store 101))),
      world = \<lparr>pages = numbered_store 101, n_queries = 1, n_creates = 0\<rparr>,
      trace = [QueryCall None 100]\<rparr>"

definition second_query_failed :: "(sim_world, nat) state" where
  "second_query_failed =
     \<lparr>existing_canvas_ids = set (stored_ids (take 100 (numbered_store 101))),
      world = \<lparr>pages = numbered_store 101, n_queries = 2, n_creates = 0\<rparr>,
      trace = [QueryCall None 100, QueryCall (Some 100) 100]\<rparr>"

text \<open>The record planned for the homework with id \<open>i\<close> that is due on 3 January.\<close>

definition planned :: "int \<Rightarrow> dest_record" where
  "planned i =
     build_record demo_cfg ''Math'' (homework i ''2024-01-03T12:00:00Z'')
       (Aware 63839880000000000 0) (Aware 63839881800000000 0) (str i)"

text \<open>
  The state in which a run on an empty store ends after creating the homeworks 7 and 8,
  and the baseline a second run then loads.
\<close>

definition first_run_done :: "(sim_world, nat) state" where
  "first_run_done =
     \<lparr>existing_canvas_ids = {''8'', ''7''},
      world = \<lparr>pages = [page_with_id ''7'', page_with_id ''8''], n_queries = 1, n_creates = 2\<rparr>,
      trace = [QueryCall None 100, GetCourses, GetAssignments algebra,
               CreateCall (planned 7), Added ''7'', CreateCall (planned 8), Added ''8'']\<rparr>"

definition second_baseline :: "(sim_world, nat) state" where
  "second_baseline =
     \<lparr>existing_canvas_ids = {''8'', ''7''},
      world = \<lparr>pages = [page_with_id ''7'', page_with_id ''8''], n_queries = 2, n_creates = 2\<rparr>,
      trace = [QueryCall None 100]\<rparr>"

section \<open>Properties\<close>

subsection \<open>Traces and loops\<close>

lemma create_calls_append [simp]: "create_calls (xs @ ys) = create_calls xs @ create_calls ys"
  by (induction xs rule: create_calls.induct) simp_all

lemma created_append [simp]: "created (xs @ ys) = created xs @ created ys"
  by (induction xs rule: created.induct) simp_all

lemma failed_append [simp]: "failed (xs @ ys) = failed xs @ failed ys"
  by (induction xs rule: failed.induct) simp_all

lemma fetched_append [simp]: "fetched (xs @ ys) = fetched xs @ fetched ys"
  by (induction xs rule: fetched.induct) simp_all

lemma query_calls_append [simp]: "query_calls (xs @ ys) = query_calls xs @ query_calls ys"
  by (induction xs rule: query_calls.induct) simp_all

lemma for_each_append:
  "for_each body (xs @ ys) fin st =
     (case for_each body xs None st of
        Done st' \<Rightarrow> for_each body ys fin st'
      | Raised e st' \<Rightarrow> Raised e st')"
  by (induction xs arbitrary: st) (auto split: result.splits)

text \<open>
  A relation between states that is reflexive and transitive and holds across every
  run of the body holds across the loop.
\<close>

lemma for_each_rel:
  assumes refl: "\<And>s. R s s"
    and trans: "\<And>a b c. R a b \<Longrightarrow> R b c \<Longrightarrow> R a c"
    and step: "\<And>x s. x \<in> set xs \<Longrightarrow> R s (state_of (body x s))"
  shows "R st (state_of (for_each body xs fin st))"
  using step
proof (induction xs arbitrary: st)
  case Nil
  then show ?case by (simp add: refl split: option.splits)
next
  case (Cons x xs)
  have s1: "R st (state_of (body x st))" using Cons.prems by simp
  show ?case
  proof (cases "body x st")
    case (Done st')
    have "R st' (state_of (for_each body xs fin st'))"
      using Cons.IH Cons.prems by simp
    with s1 Done show ?thesis by (auto intro: trans)
  next
    case (Raised e st')
    with s1 show ?thesis by simp
  qed
qed

subsection \<open>Strings and time\<close>

lemma replace_Z_append:
  "replace ''Z'' new (t @ u) = replace ''Z'' new t @ replace ''Z'' new u"
  by (induction t) simp_all

lemma replace_Z_id: "CHR ''Z'' \<notin> set t \<Longrightarrow> replace ''Z'' new t = t"
  by (induction t) auto

lemma week_out_ok:
  "0 \<le> T \<Longrightarrow> T + timedelta_days 7 \<le> MAX_DATETIME \<Longrightarrow>
   dt_add (Aware T 0) (timedelta_days 7) = Inr (Aware (T + timedelta_days 7) 0)"
  by (simp add: timedelta_days_def)

lemma in_window_aware:
  "in_window (Aware T 0) (Aware W 0) (Aware l off) = Inr (T \<le> l - off \<and> l - off \<le> W)"
  by (simp add: in_window_def split: bool.splits)

lemma in_window_naive: "in_window (Aware T 0) wk (Naive l) = Inl TypeError"
  by (simp add: in_window_def)

lemma demo_window: "0 \<le> demo_now \<and> demo_now + timedelta_days 7 \<le> MAX_DATETIME"
  by (simp add: demo_now_def timedelta_days_def MAX_DATETIME_def)

lemma parse_jan_3:
  "fromisoformat (replace ''Z'' ''+00:00'' ''2024-01-03T12:00:00Z'') = Inr (Aware 63839880000000000 0)"
  by (simp add: fromisoformat_def parse_local_def parse_offset_def field_def digit_of_def
      civil_micros_def days_before_year_def days_in_month_def is_leap_def)

subsection \<open>Evaluation\<close>

lemmas parse_defs = fromisoformat_def parse_local_def parse_offset_def field_def digit_of_def
      civil_micros_def days_before_year_def days_in_month_def is_leap_def

lemmas pass_defs = sync_pass_def process_course_def process_assignment_def sync_decision_def
  try_create_def build_record_def emit_def in_window_def timedelta_days_def timedelta_minutes_def
  MAX_DATETIME_def

lemmas demo_defs = demo_now_def demo_cfg_def algebra_def pottery_def homework_def undated_def
  canvas_of_def empty_state_def sim_notion_def sim_create_def sim_query_def sim_store_def
  page_with_id_def

lemma str_digits: "str 7 = ''7''" "str 8 = ''8''" "str 9 = ''9''"
  by code_simp+

lemma for_each_cong:
  "(\<And>x s. x \<in> set xs \<Longrightarrow> body x s = body' x s) \<Longrightarrow>
   for_each body xs fin st = for_each body' xs fin st"
  by (induction xs arbitrary: st) (auto split: result.splits)

lemma for_each_skip:
  "(\<And>x s. x \<in> set xs \<Longrightarrow> \<not> keep x \<Longrightarrow> body x s = Done s) \<Longrightarrow>
   for_each body (filter keep xs) fin st = for_each body xs fin st"
  by (induction xs arbitrary: st) (auto split: result.splits)

lemma try_create_trace:
  "trace (try_create N rec st) = trace st @ [CreateCall rec,
     (case fst (create N (world st) rec) of Inr u \<Rightarrow> Added (r_canvas_id rec)
      | Inl e \<Rightarrow> CreateFailed (r_canvas_id rec) e)]"
  by (simp add: try_create_def emit_def split: prod.splits sum.splits)

lemma try_create_ids:
  "existing_canvas_ids (try_create N rec st) =
     (case fst (create N (world st) rec) of Inr u \<Rightarrow> insert (r_canvas_id rec) (existing_canvas_ids st)
      | Inl e \<Rightarrow> existing_canvas_ids st)"
  by (simp add: try_create_def emit_def split: prod.splits sum.splits)

text \<open>What one assignment adds to the trace.\<close>

lemma process_assignment_cases:
  "process_assignment N parse cfg cls now wk a st = r \<Longrightarrow>
     state_of r = st
   \<or> (\<exists>rec. r = Done (try_create N rec st) \<and> r_canvas_id rec = str (a_id a)
         \<and> str (a_id a) \<notin> existing_canvas_ids st)"
  by (auto simp: process_assignment_def sync_decision_def build_record_def
      split: option.splits if_splits sum.splits)

lemma process_assignment_fetched:
  "fetched (trace (state_of (process_assignment N parse cfg cls now wk a st))) = fetched (trace st)"
  using process_assignment_cases [OF refl, of N parse cfg cls now wk a st]
  by (auto simp: try_create_trace split: sum.splits)

lemma process_course_fetched:
  "name_map cfg (c_name c) = None \<Longrightarrow> c \<notin> set (fetched (trace st)) \<Longrightarrow>
   c \<notin> set (fetched (trace (state_of (process_course N C parse cfg now wk x st))))"
proof (cases "name_map cfg (c_name x)")
  case None
  assume "c \<notin> set (fetched (trace st))"
  with None show ?thesis by (simp add: process_course_def)
next
  case (Some cls)
  assume un: "name_map cfg (c_name c) = None" and nin: "c \<notin> set (fetched (trace st))"
  from un Some have ne: "x \<noteq> c" by auto
  have "c \<notin> set (fetched (trace (emit (GetAssignments x) st))) \<longrightarrow>
        c \<notin> set (fetched (trace (state_of
          (for_each (process_assignment N parse cfg cls now wk)
             (fst (get_assignments C x)) (snd (get_assignments C x))
             (emit (GetAssignments x) st)))))"
    by (rule for_each_rel [where R = "\<lambda>s s'. c \<notin> set (fetched (trace s)) \<longrightarrow>
          c \<notin> set (fetched (trace s'))"]) (simp_all add: process_assignment_fetched)
  with ne nin Some show ?thesis by (simp add: process_course_def emit_def)
qed

lemma sync_pass_fetched:
  assumes "name_map cfg (c_name c) = None" and "c \<notin> set (fetched (trace st))"
  shows "c \<notin> set (fetched (trace (state_of (sync_pass N C parse cfg T st))))"
proof (cases "dt_add (Aware T 0) (timedelta_days 7)")
  case (Inl e)
  with assms show ?thesis by (simp add: sync_pass_def)
next
  case (Inr wk)
  have "c \<notin> set (fetched (trace (emit GetCourses st))) \<longrightarrow>
        c \<notin> set (fetched (trace (state_of
          (for_each (process_course N C parse cfg (Aware T 0) wk)
             (fst (get_courses C)) (snd (get_courses C)) (emit GetCourses st)))))"
    by (rule for_each_rel [where R = "\<lambda>s s'. c \<notin> set (fetched (trace s)) \<longrightarrow>
          c \<notin> set (fetched (trace s'))"]) (simp_all add: process_course_fetched [OF assms(1)])
  with Inr assms show ?thesis by (simp add: sync_pass_def emit_def)
qed

subsection \<open>Courses outside the name map\<close>

text \<open>
  C6. A course whose name is not a key of the name map is passed over: its iteration
  leaves the state as it was, so no create call comes from it whatever its assignments
  are and whenever they are due, and its assignments are never requested. The whole
  pass is the same when that course's assignments are replaced by any other feed, and
  the same when the course is taken out of the course list.
\<close>

theorem mapping_exclusivity:
  assumes "name_map cfg (c_name c) = None"
  shows "process_course N C parse cfg now wk c st = Done st
    \<and> (c \<notin> set (fetched (trace st0)) \<longrightarrow>
         c \<notin> set (fetched (trace (state_of (sync_pass N C parse cfg T st0)))))
    \<and> sync_pass N (C\<lparr>get_assignments := (get_assignments C)(c := feed)\<rparr>) parse cfg T st0
        = sync_pass N C parse cfg T st0
    \<and> sync_pass N
          (C\<lparr>get_courses := (filter (\<lambda>x. x \<noteq> c) (fst (get_courses C)), snd (get_courses C))\<rparr>)
          parse cfg T st0
        = sync_pass N C parse cfg T st0"
proof -
  have a: "\<And>N C parse now wk st. process_course N C parse cfg now wk c st = Done st"
    using assms by (simp add: process_course_def)
  have b: "c \<notin> set (fetched (trace st0)) \<longrightarrow>
         c \<notin> set (fetched (trace (state_of (sync_pass N C parse cfg T st0))))"
    using sync_pass_fetched [OF assms] by blast
  have same: "\<And>wk. process_course N (C\<lparr>get_assignments := (get_assignments C)(c := feed)\<rparr>)
          parse cfg (Aware T 0) wk = process_course N C parse cfg (Aware T 0) wk"
  proof (intro ext)
    fix wk x s
    show "process_course N (C\<lparr>get_assignments := (get_assignments C)(c := feed)\<rparr>)
          parse cfg (Aware T 0) wk x s = process_course N C parse cfg (Aware T 0) wk x s"
      by (cases "x = c") (simp_all add: a, simp add: process_course_def split: option.splits)
  qed
  have c: "sync_pass N (C\<lparr>get_assignments := (get_assignments C)(c := feed)\<rparr>) parse cfg T st0
        = sync_pass N C parse cfg T st0"
    by (simp add: sync_pass_def same split: sum.splits)
  have d: "sync_pass N
          (C\<lparr>get_courses := (filter (\<lambda>x. x \<noteq> c) (fst (get_courses C)), snd (get_courses C))\<rparr>)
          parse cfg T st0
        = sync_pass N C parse cfg T st0"
  proof (cases "dt_add (Aware T 0) (timedelta_days 7)")
    case (Inl e)
    then show ?thesis by (simp add: sync_pass_def)
  next
    case (Inr wk)
    have eq: "process_course N
          (C\<lparr>get_courses := (filter (\<lambda>x. x \<noteq> c) (fst (get_courses C)), snd (get_courses C))\<rparr>)
          parse cfg (Aware T 0) wk = process_course N C parse cfg (Aware T 0) wk"
      by (intro ext) (simp add: process_course_def split: option.splits)
    have "for_each (process_course N C parse cfg (Aware T 0) wk)
            (filter (\<lambda>x. x \<noteq> c) (fst (get_courses C))) (snd (get_courses C)) (emit GetCourses st0)
        = for_each (process_course N C parse cfg (Aware T 0) wk)
            (fst (get_courses C)) (snd (get_courses C)) (emit GetCourses st0)"
      by (rule for_each_skip) (simp add: a)
    with Inr show ?thesis by (simp add: sync_pass_def eq)
  qed
  from a b c d show ?thesis by simp
qed

theorem mapping_exclusivity_witness:
  "name_map demo_cfg (c_name pottery) = None
   \<and> pottery \<notin> set (fetched (trace (state_of
        (sync_pass (sim_notion [] [])
           (canvas_of [homework 7 ''2024-01-03T12:00:00Z''] [homework 9 ''2024-01-03T12:00:00Z''])
           fromisoformat demo_cfg demo_now empty_state))))
   \<and> create_calls (trace (state_of
        (sync_pass (sim_notion [] [])
           (canvas_of [homework 7 ''2024-01-03T12:00:00Z''] [homework 9 ''2024-01-03T12:00:00Z''])
           fromisoformat demo_cfg demo_now empty_state))) = [''7'']"
proof -
  have h: "name_map demo_cfg (c_name pottery) = None"
    by (simp add: demo_cfg_def pottery_def)
  have e: "pottery \<notin> set (fetched (trace empty_state))"
    by (simp add: empty_state_def)
  have calls: "create_calls (trace (state_of
        (sync_pass (sim_notion [] [])
           (canvas_of [homework 7 ''2024-01-03T12:00:00Z''] [homework 9 ''2024-01-03T12:00:00Z''])
           fromisoformat demo_cfg demo_now empty_state))) = [''7'']"
    by (simp add: pass_defs demo_defs parse_defs str_digits)
  show ?thesis
    using mapping_exclusivity [OF h, where ?st0.0 = empty_state and N = "sim_notion [] []"
        and C = "canvas_of [homework 7 ''2024-01-03T12:00:00Z''] [homework 9 ''2024-01-03T12:00:00Z'']"
        and parse = fromisoformat and T = demo_now] h e calls
    by blast
qed

lemma fetch_empty_store:
  "fetch_existing_canvas_ids (sim_notion [] cf) ''db'' (sim_store []) = Some (Done loaded_empty)"
  by (simp add: fetch_existing_canvas_ids_def fetch_loop.simps sim_notion_def sim_query_def
      sim_store_def emit_def loaded_empty_def)

subsection \<open>Failures outside the handler\<close>

text \<open>
  C10. Parsing and the window comparison stand before the \<^verbatim>\<open>try\<close> block. When the
  pass reaches an assignment whose due date is present and the parser raises on it, or
  parses it to a naive value that cannot be compared with the aware window, the
  exception leaves the loop body, both loops and the run: the run ends in \<open>Raised\<close>
  in the state it had on reaching that assignment. The assignment is not skipped, and
  what follows it is never looked at.
\<close>

theorem unparsed_due_date_aborts:
  assumes "due_at a = Some s" and "s \<noteq> []"
    and "parse (replace ''Z'' ''+00:00'' s) = Inl e
         \<or> parse (replace ''Z'' ''+00:00'' s) = Inr (Naive l)"
    and "0 \<le> T" and "T + timedelta_days 7 \<le> MAX_DATETIME"
    and "fetch_existing_canvas_ids N (NOTION_DATABASE_ID cfg) w = Some (Done st0)"
    and "fst (get_courses C) = cs1 @ c # cs2"
    and "for_each (process_course N C parse cfg (Aware T 0) (Aware (T + timedelta_days 7) 0))
           cs1 None (emit GetCourses st0) = Done st1"
    and "name_map cfg (c_name c) = Some cls"
    and "fst (get_assignments C c) = pre @ a # rest"
    and "for_each (process_assignment N parse cfg cls (Aware T 0) (Aware (T + timedelta_days 7) 0))
           pre None (emit (GetAssignments c) st1) = Done st2"
  shows "process_assignment N parse cfg cls (Aware T 0) (Aware (T + timedelta_days 7) 0) a st2
           = Raised (case parse (replace ''Z'' ''+00:00'' s) of Inl x \<Rightarrow> x | Inr d \<Rightarrow> TypeError) st2
    \<and> run N C parse cfg T w
           = Some (Raised (case parse (replace ''Z'' ''+00:00'' s) of Inl x \<Rightarrow> x | Inr d \<Rightarrow> TypeError)
                     st2)"
proof -
  let ?x = "case parse (replace ''Z'' ''+00:00'' s) of Inl x \<Rightarrow> x | Inr d \<Rightarrow> TypeError"
  let ?wk = "Aware (T + timedelta_days 7) 0"
  have step: "process_assignment N parse cfg cls (Aware T 0) ?wk a st2 = Raised ?x st2"
    using assms(1,2,3) by (auto simp: process_assignment_def in_window_naive)
  have inner: "for_each (process_assignment N parse cfg cls (Aware T 0) ?wk)
           (pre @ a # rest) (snd (get_assignments C c)) (emit (GetAssignments c) st1)
         = Raised ?x st2"
    using assms(11) step by (simp add: for_each_append)
  have course: "process_course N C parse cfg (Aware T 0) ?wk c st1 = Raised ?x st2"
    using assms(9,10) inner by (simp add: process_course_def)
  have outer: "for_each (process_course N C parse cfg (Aware T 0) ?wk)
           (cs1 @ c # cs2) (snd (get_courses C)) (emit GetCourses st0) = Raised ?x st2"
    using assms(8) course by (simp add: for_each_append)
  have pass: "sync_pass N C parse cfg T st0 = Raised ?x st2"
    using week_out_ok [OF assms(4,5)] assms(7) outer by (simp add: sync_pass_def)
  have "run N C parse cfg T w = Some (Raised ?x st2)"
    using assms(6) pass by (simp add: run_def)
  with step show ?thesis by simp
qed

theorem unparsed_due_date_aborts_witness:
  "fromisoformat (replace ''Z'' ''+00:00'' ''tomorrow'') = Inl ValueError
   \<and> run (sim_notion [] [])
        (canvas_of [homework 7 ''tomorrow'', homework 8 ''2024-01-03T12:00:00Z''] [])
        fromisoformat demo_cfg demo_now (sim_store [])
      = Some (Raised ValueError stopped_at_algebra)
   \<and> create_calls (trace stopped_at_algebra) = []"
proof -
  let ?C = "canvas_of [homework 7 ''tomorrow'', homework 8 ''2024-01-03T12:00:00Z''] []"
  have h1: "due_at (homework 7 ''tomorrow'') = Some ''tomorrow''" by (simp add: homework_def)
  have h2: "''tomorrow'' \<noteq> []" by simp
  have h3: "fromisoformat (replace ''Z'' ''+00:00'' ''tomorrow'') = Inl ValueError
     \<or> fromisoformat (replace ''Z'' ''+00:00'' ''tomorrow'') = Inr (Naive 0)"
    by (simp add: fromisoformat_def)
  have h3': "fromisoformat (replace ''Z'' ''+00:00'' ''tomorrow'') = Inl ValueError"
    by (simp add: fromisoformat_def)
  have h4: "0 \<le> demo_now" and h5: "demo_now + timedelta_days 7 \<le> MAX_DATETIME"
    using demo_window by simp_all
  have h6: "fetch_existing_canvas_ids (sim_notion [] []) (NOTION_DATABASE_ID demo_cfg) (sim_store [])
      = Some (Done loaded_empty)"
    using fetch_empty_store [of "[]"] by (simp add: demo_cfg_def)
  have h7: "fst (get_courses ?C) = [pottery] @ algebra # []" by (simp add: canvas_of_def)
  have h8: "for_each (process_course (sim_notion [] []) ?C fromisoformat demo_cfg (Aware demo_now 0)
              (Aware (demo_now + timedelta_days 7) 0)) [pottery] None (emit GetCourses loaded_empty)
      = Done (emit GetCourses loaded_empty)"
    by (simp add: process_course_def demo_cfg_def pottery_def)
  have h9: "name_map demo_cfg (c_name algebra) = Some ''Math''"
    by (simp add: demo_cfg_def algebra_def)
  have h10: "fst (get_assignments ?C algebra)
      = [] @ homework 7 ''tomorrow'' # [homework 8 ''2024-01-03T12:00:00Z'']"
    by (simp add: canvas_of_def)
  have h11: "for_each (process_assignment (sim_notion [] []) fromisoformat demo_cfg ''Math''
              (Aware demo_now 0) (Aware (demo_now + timedelta_days 7) 0)) [] None
              (emit (GetAssignments algebra) (emit GetCourses loaded_empty))
      = Done stopped_at_algebra"
    by (simp add: emit_def loaded_empty_def stopped_at_algebra_def)
  have none: "create_calls (trace stopped_at_algebra) = []"
    by (simp add: stopped_at_algebra_def)
  show ?thesis
    using unparsed_due_date_aborts [OF h1 h2 h3 h4 h5 h6 h7 h8 h9 h10 h11] h3' none
    by simp
qed

subsection \<open>The baseline loader\<close>

lemma reaches_round_fetch:
  "reaches_round N dsid w cursor st \<Longrightarrow>
   fetch_existing_canvas_ids N dsid w = fetch_loop N dsid cursor st"
proof (induction rule: reaches_round.induct)
  case first_round
  show ?case by (simp add: fetch_existing_canvas_ids_def)
next
  case (next_round cursor st resp w' ids')
  have "fetch_loop N dsid cursor st
      = fetch_loop N dsid (next_cursor resp)
          ((emit (QueryCall cursor 100) st)\<lparr>existing_canvas_ids := ids', world := w'\<rparr>)"
    using next_round(2,3,4) by (subst fetch_loop.simps) simp
  with next_round.IH show ?case by simp
qed

lemma reaches_round_trace:
  "reaches_round N dsid w cursor st \<Longrightarrow> list_all is_query (trace st)"
  by (induction rule: reaches_round.induct) (simp_all add: emit_def)

lemma list_all_is_query:
  "list_all is_query es \<Longrightarrow> create_calls es = [] \<and> fetched es = [] \<and> GetCourses \<notin> set es"
  by (induction es) (auto elim: is_query.elims)

text \<open>
  C7. When a query call of the baseline load raises, in whatever round, the loader
  returns by that exception and so does the run: the run ends in \<open>Raised\<close> with a
  trace made of query calls only. No course list was requested, no assignments were
  requested, no create call was issued; the pass never starts on a partial baseline.
\<close>

theorem baseline_failure_fatal:
  assumes "reaches_round N (NOTION_DATABASE_ID cfg) w cursor st"
    and "query N (world st) (NOTION_DATABASE_ID cfg) cursor 100 = (Inl e, w')"
  shows "run N C parse cfg T w
           = Some (Raised e ((emit (QueryCall cursor 100) st)\<lparr>world := w'\<rparr>))
    \<and> list_all is_query (trace ((emit (QueryCall cursor 100) st)\<lparr>world := w'\<rparr>))
    \<and> create_calls (trace ((emit (QueryCall cursor 100) st)\<lparr>world := w'\<rparr>)) = []
    \<and> fetched (trace ((emit (QueryCall cursor 100) st)\<lparr>world := w'\<rparr>)) = []
    \<and> GetCourses \<notin> set (trace ((emit (QueryCall cursor 100) st)\<lparr>world := w'\<rparr>))"
proof -
  let ?st = "(emit (QueryCall cursor 100) st)\<lparr>world := w'\<rparr>"
  have "fetch_loop N (NOTION_DATABASE_ID cfg) cursor st = Some (Raised e ?st)"
    using assms(2) by (subst fetch_loop.simps) simp
  then have f: "fetch_existing_canvas_ids N (NOTION_DATABASE_ID cfg) w = Some (Raised e ?st)"
    using reaches_round_fetch [OF assms(1)] by simp
  have r: "run N C parse cfg T w = Some (Raised e ?st)"
    using f by (simp add: run_def)
  have q: "list_all is_query (trace ?st)"
    using reaches_round_trace [OF assms(1)] by (simp add: emit_def)
  from r q list_all_is_query [OF q] show ?thesis by simp
qed

lemma stored_ids_append: "stored_ids (xs @ ys) = stored_ids xs @ stored_ids ys"
  by (induction xs) (auto split: option.splits property.splits list.splits)

lemma collect_ids_stored:
  "list_all well_typed ps \<Longrightarrow> collect_ids ps ids = Inr (ids \<union> set (stored_ids ps))"
  by (induction ps arbitrary: ids)
    (auto simp: well_typed_def split: option.splits property.splits list.splits)

lemma list_all_take_drop: "list_all P ps \<Longrightarrow> list_all P (take n (drop k ps))"
  by (auto simp: list_all_iff dest: in_set_takeD in_set_dropD)

lemma stored_ids_drop:
  "stored_ids (take n (drop k ps)) @ stored_ids (drop (k + n) ps) = stored_ids (drop k ps)"
proof -
  have "stored_ids (take n (drop k ps)) @ stored_ids (drop (k + n) ps)
      = stored_ids (take n (drop k ps) @ drop n (drop k ps))"
    by (simp add: stored_ids_append add.commute)
  also have "\<dots> = stored_ids (drop k ps)"
    by (simp only: append_take_drop_id)
  finally show ?thesis .
qed

lemma rounds_last: "n \<le> off + 100 \<Longrightarrow> rounds n off = 1"
  by (simp add: rounds_def)

lemma rounds_more: "off + 100 < n \<Longrightarrow> rounds n off = Suc (rounds n (off + 100))"
  by (simp add: rounds_def)

lemma sim_fetch_loop:
  assumes "list_all well_typed ps"
  shows "world st = \<lparr>pages = ps, n_queries = q, n_creates = k\<rparr> \<Longrightarrow>
    fetch_loop (sim_notion [] cf) dsid cursor st =
      Some (Done \<lparr>existing_canvas_ids =
                   existing_canvas_ids st \<union> set (stored_ids (drop (offset_of cursor) ps)),
                 world = \<lparr>pages = ps, n_queries = q + rounds (length ps) (offset_of cursor),
                          n_creates = k\<rparr>,
                 trace = trace st @ map (\<lambda>i. QueryCall (if i = 0 then cursor
                                          else Some (offset_of cursor + 100 * i)) 100)
                                      [0..<rounds (length ps) (offset_of cursor)]\<rparr>)"
proof (induction "length ps - offset_of cursor" arbitrary: cursor st q rule: less_induct)
  case less
  let ?off = "offset_of cursor"
  let ?st1 = "(emit (QueryCall cursor 100) st)
        \<lparr>existing_canvas_ids := existing_canvas_ids st \<union> set (stored_ids (take 100 (drop ?off ps))),
         world := \<lparr>pages = ps, n_queries = Suc q, n_creates = k\<rparr>\<rparr>"
  have qr: "query (sim_notion [] cf) (world st) dsid cursor 100 =
      (Inr \<lparr>results = Some (take 100 (drop ?off ps)),
            has_more = Some (?off + 100 < length ps),
            next_cursor = (if ?off + 100 < length ps then Some (?off + 100) else None)\<rparr>,
       \<lparr>pages = ps, n_queries = Suc q, n_creates = k\<rparr>)"
    using less.prems by (simp add: sim_notion_def sim_query_def offset_of_def)
  have col: "collect_ids (take 100 (drop ?off ps)) (existing_canvas_ids st)
      = Inr (existing_canvas_ids st \<union> set (stored_ids (take 100 (drop ?off ps))))"
    by (rule collect_ids_stored) (rule list_all_take_drop [OF assms])
  show ?case
  proof (cases "?off + 100 < length ps")
    case False
    then have r: "rounds (length ps) ?off = 1" by (simp add: rounds_last)
    have dr: "take 100 (drop ?off ps) = drop ?off ps" using False by simp
    have col': "collect_ids (drop ?off ps) (existing_canvas_ids st)
        = Inr (existing_canvas_ids st \<union> set (stored_ids (drop ?off ps)))"
      using col by (simp only: dr)
    show ?thesis
      using False by (subst fetch_loop.simps) (simp add: qr col' r dr emit_def)
  next
    case True
    then have r: "rounds (length ps) ?off = Suc (rounds (length ps) (?off + 100))"
      by (rule rounds_more)
    have step: "fetch_loop (sim_notion [] cf) dsid cursor st
        = fetch_loop (sim_notion [] cf) dsid (Some (?off + 100)) ?st1"
      using True by (subst fetch_loop.simps) (simp add: qr col)
    have w1: "world ?st1 = \<lparr>pages = ps, n_queries = Suc q, n_creates = k\<rparr>" by simp
    have m: "length ps - offset_of (Some (?off + 100)) < length ps - ?off"
      using True by (simp add: offset_of_def)
    have ids: "existing_canvas_ids st \<union> set (stored_ids (take 100 (drop ?off ps)))
          \<union> set (stored_ids (drop (?off + 100) ps))
        = existing_canvas_ids st \<union> set (stored_ids (drop ?off ps))"
      using stored_ids_drop [of 100 ?off ps, symmetric] by (simp add: Un_assoc)
    have tr: "QueryCall cursor 100 #
          map (\<lambda>i. QueryCall (if i = 0 then Some (?off + 100) else Some (?off + 100 + 100 * i)) 100)
            [0..<rounds (length ps) (?off + 100)]
        = map (\<lambda>i. QueryCall (if i = 0 then cursor else Some (?off + 100 * i)) 100)
            [0..<Suc (rounds (length ps) (?off + 100))]"
      by (simp add: upt_conv_Cons map_Suc_upt [symmetric] del: upt_Suc)
    have o: "offset_of (Some (?off + 100)) = ?off + 100" by (simp add: offset_of_def)
    have t1: "trace ?st1 = trace st @ [QueryCall cursor 100]" by (simp add: emit_def)
    have i1: "existing_canvas_ids ?st1
        = existing_canvas_ids st \<union> set (stored_ids (take 100 (drop ?off ps)))"
      by simp
    have "fetch_loop (sim_notion [] cf) dsid cursor st
        = Some (Done \<lparr>existing_canvas_ids =
                   existing_canvas_ids st \<union> set (stored_ids (take 100 (drop ?off ps)))
                     \<union> set (stored_ids (drop (?off + 100) ps)),
                 world = \<lparr>pages = ps, n_queries = Suc q + rounds (length ps) (?off + 100),
                          n_creates = k\<rparr>,
                 trace = (trace st @ [QueryCall cursor 100]) @
                   map (\<lambda>i. QueryCall (if i = 0 then Some (?off + 100)
                                          else Some (?off + 100 + 100 * i)) 100)
                     [0..<rounds (length ps) (?off + 100)]\<rparr>)"
      using less.hyps [OF m w1] by (simp only: step o t1 i1)
    then show ?thesis
      by (simp only: ids r tr [symmetric] append_Cons append_Nil append_assoc add_Suc_right
          add_Suc)
  qed
qed

lemma digit_of_digit_char: "n < 10 \<Longrightarrow> digit_of (digit_char n) = Some n"
  by (simp add: digit_of_def digit_char_def)

lemma number_snoc:
  "number (s @ [c]) acc =
     (case number s acc of
        None \<Rightarrow> None
      | Some v \<Rightarrow> (case digit_of c of None \<Rightarrow> None | Some d \<Rightarrow> Some (10 * v + d)))"
  by (induction s arbitrary: acc) (auto split: option.splits)

lemma number_str_nat: "number (str_nat n) 0 = Some n"
proof (induction n rule: str_nat.induct)
  case (1 n)
  show ?case
  proof (cases "n < 10")
    case True
    then show ?thesis by (subst str_nat.simps) (simp add: digit_of_digit_char)
  next
    case False
    have "n mod 10 < 10" by simp
    then have d: "digit_of (digit_char (n mod 10)) = Some (n mod 10)"
      by (rule digit_of_digit_char)
    have "str_nat n = str_nat (n div 10) @ [digit_char (n mod 10)]"
      using False by (subst str_nat.simps) simp
    then show ?thesis using 1 [OF False] d by (simp add: number_snoc)
  qed
qed

lemma str_nat_inj: "str_nat a = str_nat b \<Longrightarrow> a = b"
  using number_str_nat [of a] number_str_nat [of b] by simp

lemma str_int_nat: "str (int n) = str_nat n"
  by (simp add: str_def)

lemma stored_ids_numbered: "stored_ids (map (\<lambda>n. page_with_id (f n)) xs) = map f xs"
  by (induction xs) (simp_all add: page_with_id_def)

lemma well_typed_numbered: "list_all well_typed (numbered_store k)"
  by (simp add: numbered_store_def list_all_iff well_typed_def page_with_id_def)

lemma distinct_numbered: "distinct (stored_ids (numbered_store k))"
  by (simp add: numbered_store_def stored_ids_numbered distinct_map inj_on_def str_int_nat
      del: str_nat.simps) (blast dest: str_nat_inj)

lemma query_calls_map:
  "query_calls (map (\<lambda>i. QueryCall (f i) n) xs) = map (\<lambda>i. (f i, n)) xs"
  by (induction xs) simp_all

text \<open>
  C4. On the simulated store the loader returns. It asks for pages of 100, first with
  no cursor and then with each cursor the store handed out, until the store says that
  nothing follows: \<open>max 1 \<lceil>n / 100\<rceil>\<close> queries for \<open>n\<close> pages. The set it returns holds
  the first plain text of every \<^verbatim>\<open>Canvas ID\<close> that is present and not empty. With 250
  pages that is three queries, with distinct ids as many ids as pages carry one, and
  with no page the empty set.
\<close>

theorem loader_pagination:
  assumes "list_all well_typed ps"
  shows "\<exists>st. fetch_existing_canvas_ids (sim_notion [] cf) dsid (sim_store ps) = Some (Done st)
     \<and> existing_canvas_ids st = set (stored_ids ps)
     \<and> query_calls (trace st)
         = map (\<lambda>i. (if i = 0 then None else Some (100 * i), 100))
             [0..<max 1 ((length ps + 99) div 100)]
     \<and> length (trace st) = length (query_calls (trace st))
     \<and> n_queries (world st) = length (query_calls (trace st))
     \<and> (distinct (stored_ids ps) \<longrightarrow> card (existing_canvas_ids st) = length (stored_ids ps))
     \<and> (length ps = 250 \<longrightarrow> length (query_calls (trace st)) = 3)
     \<and> (ps = [] \<longrightarrow> existing_canvas_ids st = {})"
proof -
  let ?init = "\<lparr>existing_canvas_ids = {}, world = sim_store ps, trace = []\<rparr> :: (sim_world, nat) state"
  let ?n = "max 1 ((length ps + 99) div 100)"
  let ?st = "\<lparr>existing_canvas_ids = set (stored_ids ps),
              world = \<lparr>pages = ps, n_queries = ?n, n_creates = 0\<rparr>,
              trace = map (\<lambda>i. QueryCall (if i = 0 then None else Some (100 * i)) 100) [0..<?n]\<rparr>
            :: (sim_world, nat) state"
  have w: "world ?init = \<lparr>pages = ps, n_queries = 0, n_creates = 0\<rparr>"
    by (simp add: sim_store_def)
  have "fetch_existing_canvas_ids (sim_notion [] cf) dsid (sim_store ps) = Some (Done ?st)"
    using sim_fetch_loop [OF assms w, of cf dsid None]
    by (simp add: fetch_existing_canvas_ids_def offset_of_def rounds_def)
  moreover have "query_calls (trace ?st)
      = map (\<lambda>i. (if i = 0 then None else Some (100 * i), 100)) [0..<?n]"
    by (simp add: query_calls_map)
  moreover have "distinct (stored_ids ps) \<longrightarrow>
      card (existing_canvas_ids ?st) = length (stored_ids ps)"
    by (simp add: distinct_card)
  moreover have "length ps = 250 \<longrightarrow> length (query_calls (trace ?st)) = 3"
    by (simp add: query_calls_map)
  ultimately show ?thesis
    by (intro exI [of _ ?st]) (simp add: query_calls_map)
qed

lemma length_numbered [simp]: "length (numbered_store k) = k"
  by (simp add: numbered_store_def)

lemma upt_3: "[0..<3] = [0, 1, 2 :: nat]"
  by (simp add: upt_rec)

theorem loader_pagination_witness:
  "list_all well_typed (numbered_store 250)
   \<and> length (numbered_store 250) = 250
   \<and> distinct (stored_ids (numbered_store 250))
   \<and> (\<exists>st. fetch_existing_canvas_ids (sim_notion [] []) ''db'' (sim_store (numbered_store 250))
              = Some (Done st)
          \<and> existing_canvas_ids st = set (stored_ids (numbered_store 250))
          \<and> card (existing_canvas_ids st) = 250
          \<and> query_calls (trace st) = [(None, 100), (Some 100, 100), (Some 200, 100)])
   \<and> (\<exists>st. fetch_existing_canvas_ids (sim_notion [] []) ''db'' (sim_store []) = Some (Done st)
          \<and> existing_canvas_ids st = {})"
proof -
  have h: "list_all well_typed (numbered_store 250)" by (rule well_typed_numbered)
  have d: "distinct (stored_ids (numbered_store 250))" by (rule distinct_numbered)
  have l: "length (stored_ids (numbered_store 250)) = 250"
    by (simp add: numbered_store_def stored_ids_numbered)
  have e: "list_all well_typed []" by simp
  have r: "[0..<max 1 ((250 + 99) div 100)] = [0, 1, 2 :: nat]"
    by (simp add: upt_3)
  show ?thesis
    using loader_pagination [OF h, of "[]" "''db''"] loader_pagination [OF e, of "[]" "''db''"]
      h d l r
    by (simp del: upt_Suc) metis
qed

theorem baseline_failure_fatal_witness:
  "reaches_round (sim_notion [1] []) (NOTION_DATABASE_ID demo_cfg) (sim_store (numbered_store 101))
     (Some 100) after_first_page
   \<and> query (sim_notion [1] []) (world after_first_page) (NOTION_DATABASE_ID demo_cfg) (Some 100) 100
       = (Inl (ClientError ''query''), \<lparr>pages = numbered_store 101, n_queries = 2, n_creates = 0\<rparr>)
   \<and> run (sim_notion [1] []) (canvas_of [homework 7 ''2024-01-03T12:00:00Z''] [])
        fromisoformat demo_cfg demo_now (sim_store (numbered_store 101))
       = Some (Raised (ClientError ''query'') second_query_failed)
   \<and> create_calls (trace second_query_failed) = []
   \<and> fetched (trace second_query_failed) = []"
proof -
  let ?N = "sim_notion [1] [] :: (sim_world, nat) notion"
  let ?w = "sim_store (numbered_store 101)"
  let ?init = "\<lparr>existing_canvas_ids = {}, world = ?w, trace = []\<rparr> :: (sim_world, nat) state"
  let ?resp = "\<lparr>results = Some (take 100 (numbered_store 101)), has_more = Some True,
                next_cursor = Some 100\<rparr> :: nat response"
  have r0: "reaches_round ?N (NOTION_DATABASE_ID demo_cfg) ?w None ?init"
    by (rule first_round)
  have q: "query ?N (world ?init) (NOTION_DATABASE_ID demo_cfg) None 100
      = (Inr ?resp, \<lparr>pages = numbered_store 101, n_queries = 1, n_creates = 0\<rparr>)"
    by (simp add: sim_notion_def sim_query_def sim_store_def)
  have c: "collect_ids (case results ?resp of None \<Rightarrow> [] | Some ps \<Rightarrow> ps) (existing_canvas_ids ?init)
      = Inr (set (stored_ids (take 100 (numbered_store 101))))"
    using collect_ids_stored [OF list_all_take_drop [OF well_typed_numbered, of 100 0 101], of "{}"]
    by simp
  have m: "has_more ?resp = Some True" by simp
  have st: "(emit (QueryCall None 100) ?init)
        \<lparr>existing_canvas_ids := set (stored_ids (take 100 (numbered_store 101))),
         world := \<lparr>pages = numbered_store 101, n_queries = 1, n_creates = 0\<rparr>\<rparr>
      = after_first_page"
    by (simp add: emit_def after_first_page_def)
  have r1: "reaches_round ?N (NOTION_DATABASE_ID demo_cfg) ?w (Some 100) after_first_page"
    using next_round [OF r0 q c m] by (simp only: st response.simps)
  have f: "query ?N (world after_first_page) (NOTION_DATABASE_ID demo_cfg) (Some 100) 100
      = (Inl (ClientError ''query''), \<lparr>pages = numbered_store 101, n_queries = 2, n_creates = 0\<rparr>)"
    by (simp add: sim_notion_def sim_query_def after_first_page_def)
  have fin: "(emit (QueryCall (Some 100) 100) after_first_page)
        \<lparr>world := \<lparr>pages = numbered_store 101, n_queries = 2, n_creates = 0\<rparr>\<rparr>
      = second_query_failed"
    by (simp add: emit_def after_first_page_def second_query_failed_def)
  show ?thesis
    using baseline_failure_fatal [OF r1 f,
        of "canvas_of [homework 7 ''2024-01-03T12:00:00Z''] []" fromisoformat demo_now] r1 f
    by (simp only: fin)
qed

subsection \<open>One record per id\<close>

lemma dedup_ok_append:
  "dedup_ok ids (es1 @ es2) = (dedup_ok ids es1 \<and> dedup_ok (ids \<union> set (created es1)) es2)"
  by (induction ids es1 rule: dedup_ok.induct) simp_all

lemma dedup_ok_created:
  "dedup_ok ids es \<Longrightarrow> distinct (created es) \<and> set (created es) \<inter> ids = {}"
  by (induction ids es rule: dedup_ok.induct) auto

lemma dedup_rel_refl: "dedup_rel st st"
  by (simp add: dedup_rel_def)

lemma dedup_rel_trans:
  assumes "dedup_rel a b" and "dedup_rel b c"
  shows "dedup_rel a c"
proof -
  from assms(1) obtain es1 where 1: "trace b = trace a @ es1"
    "existing_canvas_ids b = existing_canvas_ids a \<union> set (created es1)"
    "dedup_ok (existing_canvas_ids a) es1" "failed es1 = [] \<longrightarrow> create_calls es1 = created es1"
    by (auto simp: dedup_rel_def)
  from assms(2) obtain es2 where 2: "trace c = trace b @ es2"
    "existing_canvas_ids c = existing_canvas_ids b \<union> set (created es2)"
    "dedup_ok (existing_canvas_ids b) es2" "failed es2 = [] \<longrightarrow> create_calls es2 = created es2"
    by (auto simp: dedup_rel_def)
  have "trace c = trace a @ (es1 @ es2)" using 1(1) 2(1) by simp
  moreover have "existing_canvas_ids c = existing_canvas_ids a \<union> set (created (es1 @ es2))"
    using 1(2) 2(2) by auto
  moreover have "dedup_ok (existing_canvas_ids a) (es1 @ es2)"
    using 1(2,3) 2(3) by (simp add: dedup_ok_append)
  moreover have "failed (es1 @ es2) = [] \<longrightarrow> create_calls (es1 @ es2) = created (es1 @ es2)"
    using 1(4) 2(4) by simp
  ultimately show ?thesis unfolding dedup_rel_def by blast
qed

lemma dedup_rel_emit:
  "dedup_ok (existing_canvas_ids st) [ev] \<Longrightarrow> created [ev] = [] \<Longrightarrow> create_calls [ev] = [] \<Longrightarrow>
   dedup_rel st (emit ev st)"
  by (simp add: dedup_rel_def emit_def)

lemma try_create_dedup:
  "r_canvas_id rec \<notin> existing_canvas_ids st \<Longrightarrow> dedup_rel st (try_create N rec st)"
  unfolding dedup_rel_def
  by (rule exI [of _ "[CreateCall rec,
        (case fst (create N (world st) rec) of Inr u \<Rightarrow> Added (r_canvas_id rec)
         | Inl e \<Rightarrow> CreateFailed (r_canvas_id rec) e)]"])
    (auto simp: try_create_def emit_def split: prod.splits sum.splits)

lemma process_assignment_dedup:
  "dedup_rel st (state_of (process_assignment N parse cfg cls now wk a st))"
  using process_assignment_cases [OF refl, of N parse cfg cls now wk a st]
  by (auto simp: dedup_rel_refl try_create_dedup)

lemma process_course_dedup:
  "dedup_rel st (state_of (process_course N C parse cfg now wk c st))"
proof (cases "name_map cfg (c_name c)")
  case None
  then show ?thesis by (simp add: process_course_def dedup_rel_refl)
next
  case (Some cls)
  have 1: "dedup_rel st (emit (GetAssignments c) st)"
    by (rule dedup_rel_emit) simp_all
  have 2: "dedup_rel (emit (GetAssignments c) st)
      (state_of (for_each (process_assignment N parse cfg cls now wk)
         (fst (get_assignments C c)) (snd (get_assignments C c)) (emit (GetAssignments c) st)))"
    by (rule for_each_rel [where R = dedup_rel])
      (auto intro: dedup_rel_refl dedup_rel_trans process_assignment_dedup)
  from dedup_rel_trans [OF 1 2] Some show ?thesis by (simp add: process_course_def)
qed

lemma sync_pass_dedup: "dedup_rel st (state_of (sync_pass N C parse cfg T st))"
proof (cases "dt_add (Aware T 0) (timedelta_days 7)")
  case (Inl e)
  then show ?thesis by (simp add: sync_pass_def dedup_rel_refl)
next
  case (Inr wk)
  have 1: "dedup_rel st (emit GetCourses st)"
    by (rule dedup_rel_emit) simp_all
  have 2: "dedup_rel (emit GetCourses st)
      (state_of (for_each (process_course N C parse cfg (Aware T 0) wk)
         (fst (get_courses C)) (snd (get_courses C)) (emit GetCourses st)))"
    by (rule for_each_rel [where R = dedup_rel])
      (auto intro: dedup_rel_refl dedup_rel_trans process_course_dedup)
  from dedup_rel_trans [OF 1 2] Inr show ?thesis by (simp add: sync_pass_def)
qed

lemma create_calls_split:
  "x \<in> set (create_calls es) \<Longrightarrow> \<exists>u rec v. es = u @ CreateCall rec # v \<and> r_canvas_id rec = x"
proof (induction es)
  case Nil
  then show ?case by simp
next
  case (Cons e es)
  show ?case
  proof (cases "\<exists>r. e = CreateCall r \<and> r_canvas_id r = x")
    case True
    then obtain r where "e = CreateCall r" "r_canvas_id r = x" by blast
    then have "e # es = [] @ CreateCall r # es \<and> r_canvas_id r = x" by simp
    then show ?thesis by blast
  next
    case False
    with Cons.prems have "x \<in> set (create_calls es)" by (cases e) auto
    from Cons.IH [OF this] obtain u rec v where "es = u @ CreateCall rec # v" "r_canvas_id rec = x"
      by blast
    then have "e # es = (e # u) @ CreateCall rec # v \<and> r_canvas_id rec = x" by simp
    then show ?thesis by blast
  qed
qed

text \<open>
  C1, as amended. In a run whose baseline load returned, the set at any moment is the
  baseline together with the ids added so far; a create call is issued for an id only
  when the id is not in the set at that moment; after a create call returned, its id
  is in the set and no later create call is for that id. Hence at most one create call
  per id succeeds in a run, none for an id of the baseline, and a run in which no
  create call fails issues at most one create call per id. (A failed create call leaves
  its id out of the set, and a later occurrence of the id is tried again.)
\<close>

theorem dedup_within_run:
  assumes "fetch_existing_canvas_ids N (NOTION_DATABASE_ID cfg) w = Some (Done st0)"
  shows "\<exists>r es. run N C parse cfg T w = Some r
     \<and> trace (state_of r) = trace st0 @ es
     \<and> existing_canvas_ids (state_of r) = existing_canvas_ids st0 \<union> set (created es)
     \<and> distinct (created es)
     \<and> set (created es) \<inter> existing_canvas_ids st0 = {}
     \<and> (\<forall>es1 rec es2. es = es1 @ CreateCall rec # es2 \<longrightarrow>
           r_canvas_id rec \<notin> existing_canvas_ids st0 \<union> set (created es1))
     \<and> (\<forall>es1 x es2. es = es1 @ Added x # es2 \<longrightarrow> x \<notin> set (create_calls es2))
     \<and> (failed es = [] \<longrightarrow> create_calls es = created es \<and> distinct (create_calls es))"
proof -
  let ?r = "sync_pass N C parse cfg T st0"
  have run: "run N C parse cfg T w = Some ?r" using assms by (simp add: run_def)
  from sync_pass_dedup [of st0 N C parse cfg T]
  obtain es where es: "trace (state_of ?r) = trace st0 @ es"
    "existing_canvas_ids (state_of ?r) = existing_canvas_ids st0 \<union> set (created es)"
    "dedup_ok (existing_canvas_ids st0) es" "failed es = [] \<longrightarrow> create_calls es = created es"
    by (auto simp: dedup_rel_def)
  have d: "distinct (created es)" "set (created es) \<inter> existing_canvas_ids st0 = {}"
    using dedup_ok_created [OF es(3)] by simp_all
  have c: "r_canvas_id rec \<notin> existing_canvas_ids st0 \<union> set (created es1)"
    if "es = es1 @ CreateCall rec # es2" for es1 rec es2
    using es(3) that by (simp add: dedup_ok_append)
  have a: "x \<notin> set (create_calls es2)" if s: "es = es1 @ Added x # es2" for es1 x es2
  proof
    assume "x \<in> set (create_calls es2)"
    from create_calls_split [OF this]
    obtain u rec v where u: "es2 = u @ CreateCall rec # v" "r_canvas_id rec = x" by blast
    have "es = (es1 @ Added x # u) @ CreateCall rec # v" using s u(1) by simp
    from c [OF this] u(2) show False by simp
  qed
  have f: "failed es = [] \<longrightarrow> create_calls es = created es \<and> distinct (create_calls es)"
    using es(4) d(1) by auto
  from run es(1,2) d c a f show ?thesis by blast
qed

lemma run_after_empty_load:
  "run (sim_notion [] cf) C parse demo_cfg T (sim_store [])
     = Some (sync_pass (sim_notion [] cf) C parse demo_cfg T loaded_empty)"
  using fetch_empty_store [of cf] by (simp add: run_def demo_cfg_def)

text \<open>
  C1 as stated fails: when the first create call for an id raises, the id yielded a
  second time gets a second create call.
\<close>

theorem repeated_id_counterexample:
  "create_calls (run_trace (run (sim_notion [] [0])
      (canvas_of [homework 7 ''2024-01-03T12:00:00Z'', homework 7 ''2024-01-03T12:00:00Z''] [])
      fromisoformat demo_cfg demo_now (sim_store [])))
   = [''7'', ''7'']"
  unfolding run_after_empty_load
  by (simp add: run_trace_def loaded_empty_def pass_defs demo_defs parse_defs str_digits)

theorem dedup_within_run_witness:
  "fetch_existing_canvas_ids (sim_notion [] []) (NOTION_DATABASE_ID demo_cfg) (sim_store [])
     = Some (Done loaded_empty)
   \<and> (\<exists>r es. run (sim_notion [] [])
          (canvas_of [homework 7 ''2024-01-03T12:00:00Z'', homework 7 ''2024-01-03T12:00:00Z''] [])
          fromisoformat demo_cfg demo_now (sim_store []) = Some r
        \<and> trace (state_of r) = trace loaded_empty @ es
        \<and> distinct (created es)
        \<and> (failed es = [] \<longrightarrow> create_calls es = created es \<and> distinct (create_calls es)))
   \<and> create_calls (run_trace (run (sim_notion [] [])
          (canvas_of [homework 7 ''2024-01-03T12:00:00Z'', homework 7 ''2024-01-03T12:00:00Z''] [])
          fromisoformat demo_cfg demo_now (sim_store []))) = [''7'']"
proof -
  have h: "fetch_existing_canvas_ids (sim_notion [] []) (NOTION_DATABASE_ID demo_cfg) (sim_store [])
     = Some (Done loaded_empty)"
    using fetch_empty_store [of "[]"] by (simp add: demo_cfg_def)
  have e: "create_calls (run_trace (run (sim_notion [] [])
          (canvas_of [homework 7 ''2024-01-03T12:00:00Z'', homework 7 ''2024-01-03T12:00:00Z''] [])
          fromisoformat demo_cfg demo_now (sim_store []))) = [''7'']"
    unfolding run_after_empty_load
    by (simp add: run_trace_def loaded_empty_def pass_defs demo_defs parse_defs str_digits)
  show ?thesis
    using dedup_within_run [OF h,
        of "canvas_of [homework 7 ''2024-01-03T12:00:00Z'', homework 7 ''2024-01-03T12:00:00Z''] []"
          fromisoformat demo_now] h e
    by blast
qed

subsection \<open>Failures of single create calls\<close>

lemma eligible_planned:
  "eligible parse now wk a \<Longrightarrow>
   \<exists>rec. planned_record parse cfg cls a = Some rec \<and> r_canvas_id rec = canvas_id a"
  by (auto simp: eligible_def planned_record_def build_record_def split: option.splits sum.splits)

lemma process_eligible:
  "eligible parse now wk a \<Longrightarrow> canvas_id a \<notin> existing_canvas_ids st \<Longrightarrow>
   planned_record parse cfg cls a = Some rec \<Longrightarrow>
   process_assignment N parse cfg cls now wk a st = Done (try_create N rec st)"
  by (auto simp: eligible_def planned_record_def process_assignment_def sync_decision_def
      split: option.splits sum.splits)


lemma try_create_failed:
  "create N (world st) rec = (Inl e, w') \<Longrightarrow>
   try_create N rec st =
     st\<lparr>world := w', trace := trace st @ [CreateCall rec, CreateFailed (r_canvas_id rec) e]\<rparr>"
  by (simp add: try_create_def emit_def)

lemma try_create_shape:
  "\<exists>ev. trace (try_create N rec st) = trace st @ [CreateCall rec, ev]
     \<and> ((ev = Added (r_canvas_id rec)
           \<and> existing_canvas_ids (try_create N rec st) = insert (r_canvas_id rec) (existing_canvas_ids st))
        \<or> ((\<exists>e. ev = CreateFailed (r_canvas_id rec) e)
           \<and> existing_canvas_ids (try_create N rec st) = existing_canvas_ids st))"
  by (cases "create N (world st) rec"; cases "fst (create N (world st) rec)")
    (auto simp: try_create_def emit_def)

lemma eligible_loop:
  assumes "\<forall>a\<in>set xs. eligible parse now wk a"
    and "distinct (map canvas_id xs)"
    and "canvas_id ` set xs \<inter> existing_canvas_ids st = {}"
  shows "\<exists>st' es. for_each (process_assignment N parse cfg cls now wk) xs None st = Done st'
     \<and> trace st' = trace st @ es
     \<and> create_calls es = map canvas_id xs
     \<and> existing_canvas_ids st' = existing_canvas_ids st \<union> set (created es)
     \<and> set (created es) \<union> set (failed es) = canvas_id ` set xs
     \<and> set (created es) \<inter> set (failed es) = {}
     \<and> fetched es = []"
  using assms
proof (induction xs arbitrary: st)
  case Nil
  then show ?case by simp
next
  case (Cons a xs)
  from Cons.prems(1) have el: "eligible parse now wk a" by simp
  from Cons.prems(3) have fresh: "canvas_id a \<notin> existing_canvas_ids st" by simp
  from eligible_planned [OF el] obtain rec where
    rec: "planned_record parse cfg cls a = Some rec" "r_canvas_id rec = canvas_id a" by blast
  let ?s1 = "try_create N rec st"
  have step: "process_assignment N parse cfg cls now wk a st = Done ?s1"
    by (rule process_eligible [OF el fresh rec(1)])
  from try_create_shape [of N rec st] obtain ev where
    tr: "trace ?s1 = trace st @ [CreateCall rec, ev]"
    and ev: "(ev = Added (canvas_id a)
          \<and> existing_canvas_ids ?s1 = insert (canvas_id a) (existing_canvas_ids st))
       \<or> ((\<exists>e. ev = CreateFailed (canvas_id a) e)
          \<and> existing_canvas_ids ?s1 = existing_canvas_ids st)"
    unfolding rec(2) by blast
  have sub: "existing_canvas_ids ?s1 \<subseteq> insert (canvas_id a) (existing_canvas_ids st)"
    using ev by (elim disjE conjE exE) (simp_all add: subset_insertI)
  have p1: "\<forall>a\<in>set xs. eligible parse now wk a" using Cons.prems(1) by simp
  have p2: "distinct (map canvas_id xs)" using Cons.prems(2) by simp
  have nota: "canvas_id a \<notin> canvas_id ` set xs" using Cons.prems(2) by simp
  have dis: "canvas_id ` set xs \<inter> existing_canvas_ids st = {}"
    using Cons.prems(3) by simp
  have p3: "canvas_id ` set xs \<inter> existing_canvas_ids ?s1 = {}"
  proof (rule ccontr)
    assume "canvas_id ` set xs \<inter> existing_canvas_ids ?s1 \<noteq> {}"
    then obtain x where x: "x \<in> canvas_id ` set xs" "x \<in> existing_canvas_ids ?s1" by blast
    from x(2) sub have c: "x = canvas_id a \<or> x \<in> existing_canvas_ids st"
      by (auto simp: subset_iff)
    from x(1) nota have n1: "x \<noteq> canvas_id a" by metis
    from x(1) dis have n2: "x \<notin> existing_canvas_ids st"
      by (metis IntI empty_iff)
    from c n1 n2 show False by simp
  qed
  from Cons.IH [OF p1 p2 p3] obtain st' es where
    ih: "for_each (process_assignment N parse cfg cls now wk) xs None ?s1 = Done st'"
      "trace st' = trace ?s1 @ es" "create_calls es = map canvas_id xs"
      "existing_canvas_ids st' = existing_canvas_ids ?s1 \<union> set (created es)"
      "set (created es) \<union> set (failed es) = canvas_id ` set xs"
      "set (created es) \<inter> set (failed es) = {}" "fetched es = []"
    by blast
  have 1: "for_each (process_assignment N parse cfg cls now wk) (a # xs) None st = Done st'"
    using step ih(1) by simp
  have 2: "trace st' = trace st @ (CreateCall rec # ev # es)" using ih(2) tr by simp
  have 3: "create_calls (CreateCall rec # ev # es) = map canvas_id (a # xs)"
    using ev ih(3) rec(2) by (elim disjE conjE exE) simp_all
  have nc: "canvas_id a \<notin> set (created es)" and nf: "canvas_id a \<notin> set (failed es)"
    using ih(5) nota by (metis UnI1, metis UnI2)
  show ?case
    using ev
  proof (elim disjE conjE exE)
    assume e1: "ev = Added (canvas_id a)"
      and i1: "existing_canvas_ids ?s1 = insert (canvas_id a) (existing_canvas_ids st)"
    have 4: "existing_canvas_ids st' = existing_canvas_ids st \<union> set (created (CreateCall rec # ev # es))"
      using ih(4) by (simp add: e1 i1)
    have 5: "set (created (CreateCall rec # ev # es)) \<union> set (failed (CreateCall rec # ev # es))
        = canvas_id ` set (a # xs)"
      using ih(5) by (simp add: e1)
    have 6: "set (created (CreateCall rec # ev # es)) \<inter> set (failed (CreateCall rec # ev # es)) = {}"
      using ih(6) nf by (simp add: e1)
    have 7: "fetched (CreateCall rec # ev # es) = []" using ih(7) by (simp add: e1)
    show ?thesis
      by (intro exI [of _ st'] exI [of _ "CreateCall rec # ev # es"] conjI 1 2 3 4 5 6 7)
  next
    fix e
    assume e1: "ev = CreateFailed (canvas_id a) e"
      and i1: "existing_canvas_ids ?s1 = existing_canvas_ids st"
    have 4: "existing_canvas_ids st' = existing_canvas_ids st \<union> set (created (CreateCall rec # ev # es))"
      using ih(4) by (simp add: e1 i1)
    have 5: "set (created (CreateCall rec # ev # es)) \<union> set (failed (CreateCall rec # ev # es))
        = canvas_id ` set (a # xs)"
      using ih(5) by (simp add: e1)
    have 6: "set (created (CreateCall rec # ev # es)) \<inter> set (failed (CreateCall rec # ev # es)) = {}"
      using ih(6) nc by (simp add: e1)
    have 7: "fetched (CreateCall rec # ev # es) = []" using ih(7) by (simp add: e1)
    show ?thesis
      by (intro exI [of _ st'] exI [of _ "CreateCall rec # ev # es"] conjI 1 2 3 4 5 6 7)
  qed
qed


lemma single_course_pass:
  assumes "0 \<le> T" and "T + timedelta_days 7 \<le> MAX_DATETIME"
    and "snd (get_courses C) = None"
    and "filter (\<lambda>x. name_map cfg (c_name x) \<noteq> None) (fst (get_courses C)) = [c]"
    and "name_map cfg (c_name c) = Some cls"
    and "get_assignments C c = (xs, None)"
  shows "sync_pass N C parse cfg T st =
     for_each (process_assignment N parse cfg cls (Aware T 0) (Aware (T + timedelta_days 7) 0))
       xs None (emit (GetAssignments c) (emit GetCourses st))"
proof -
  let ?body = "process_course N C parse cfg (Aware T 0) (Aware (T + timedelta_days 7) 0)"
  have "for_each ?body (fst (get_courses C)) None (emit GetCourses st)
      = for_each ?body (filter (\<lambda>x. name_map cfg (c_name x) \<noteq> None) (fst (get_courses C)))
          None (emit GetCourses st)"
    by (rule for_each_skip [symmetric]) (simp add: process_course_def)
  also have "\<dots> = for_each ?body [c] None (emit GetCourses st)"
    by (simp only: assms(4))
  also have "\<dots> = for_each (process_assignment N parse cfg cls (Aware T 0)
                        (Aware (T + timedelta_days 7) 0))
       xs None (emit (GetAssignments c) (emit GetCourses st))"
    using assms(5,6) by (simp add: process_course_def split: result.splits)
  finally show ?thesis
    using week_out_ok [OF assms(1,2)] assms(3) by (simp add: sync_pass_def)
qed


lemma eligible_homework:
  "eligible fromisoformat (Aware demo_now 0) (Aware (demo_now + timedelta_days 7) 0)
     (homework i ''2024-01-03T12:00:00Z'')"
  using parse_jan_3
  by (simp add: eligible_def homework_def in_window_aware demo_now_def timedelta_days_def
      timedelta_minutes_def MAX_DATETIME_def)

lemma planned_homework:
  "planned_record fromisoformat demo_cfg ''Math'' (homework i ''2024-01-03T12:00:00Z'')
     = Some (planned i)"
  using parse_jan_3
  by (simp add: planned_record_def planned_def homework_def timedelta_minutes_def MAX_DATETIME_def)

lemma algebra_only:
  "filter (\<lambda>x. name_map demo_cfg (c_name x) \<noteq> None) (fst (get_courses (canvas_of xs ys)))
     = [algebra]"
  by (simp add: canvas_of_def demo_cfg_def algebra_def pottery_def)


subsection \<open>A failed create call is tried again\<close>

lemma within_refl: "within S st st"
  by (simp add: within_def)

lemma within_trans:
  assumes "within S a b" and "within S b c"
  shows "within S a c"
proof -
  from assms(1) obtain es1 where 1: "trace b = trace a @ es1" "set (create_calls es1) \<subseteq> S"
    "existing_canvas_ids b \<subseteq> existing_canvas_ids a \<union> S"
    unfolding within_def by (elim exE conjE)
  from assms(2) obtain es2 where 2: "trace c = trace b @ es2" "set (create_calls es2) \<subseteq> S"
    "existing_canvas_ids c \<subseteq> existing_canvas_ids b \<union> S"
    unfolding within_def by (elim exE conjE)
  have t: "trace c = trace a @ (es1 @ es2)" using 1(1) 2(1) by simp
  have c: "set (create_calls (es1 @ es2)) \<subseteq> S" using 1(2) 2(2) by simp
  have i: "existing_canvas_ids c \<subseteq> existing_canvas_ids a \<union> S"
  proof
    fix x assume "x \<in> existing_canvas_ids c"
    with 2(3) have "x \<in> existing_canvas_ids b \<or> x \<in> S" by (auto simp: subset_iff)
    with 1(3) show "x \<in> existing_canvas_ids a \<union> S" by (auto simp: subset_iff)
  qed
  show ?thesis unfolding within_def by (intro exI [of _ "es1 @ es2"] conjI t c i)
qed

lemma process_assignment_within:
  assumes "canvas_id a \<in> S"
  shows "within S st (state_of (process_assignment N parse cfg cls now wk a st))"
proof -
  from process_assignment_cases [OF refl, of N parse cfg cls now wk a st]
  show ?thesis
  proof (elim disjE exE conjE)
    assume "state_of (process_assignment N parse cfg cls now wk a st) = st"
    then show ?thesis by (simp add: within_refl)
  next
    fix rec
    assume r: "process_assignment N parse cfg cls now wk a st = Done (try_create N rec st)"
      and id: "r_canvas_id rec = canvas_id a"
    from try_create_shape [of N rec st] obtain ev where
      tr: "trace (try_create N rec st) = trace st @ [CreateCall rec, ev]"
      and ev: "(ev = Added (r_canvas_id rec)
           \<and> existing_canvas_ids (try_create N rec st)
               = insert (r_canvas_id rec) (existing_canvas_ids st))
        \<or> ((\<exists>e. ev = CreateFailed (r_canvas_id rec) e)
           \<and> existing_canvas_ids (try_create N rec st) = existing_canvas_ids st)"
      by (elim exE conjE)
    have c: "set (create_calls [CreateCall rec, ev]) \<subseteq> S"
      using ev assms id by (elim disjE conjE exE) simp_all
    have i: "existing_canvas_ids (try_create N rec st) \<subseteq> existing_canvas_ids st \<union> S"
      using ev assms id by (elim disjE conjE exE) auto
    have "within S st (try_create N rec st)"
      unfolding within_def by (intro exI [of _ "[CreateCall rec, ev]"] conjI tr c i)
    with r show ?thesis by simp
  qed
qed

lemma loop_within:
  "within (canvas_id ` set xs) st
     (state_of (for_each (process_assignment N parse cfg cls now wk) xs fin st))"
  by (rule for_each_rel [where R = "within (canvas_id ` set xs)"])
    (auto intro: within_refl within_trans process_assignment_within)

text \<open>
  C9. A create call that raises leaves the set as it was: the id is not added. Hence
  when the same id comes again later in the loop and is eligible, the assignments in
  between having gone through, it is still outside the set and a second create call is
  issued for it: the trace of the loop holds two create calls for that id.
\<close>

theorem failed_create_retried:
  assumes "eligible parse now wk a" and "eligible parse now wk a'"
    and "canvas_id a' = canvas_id a"
    and "canvas_id a \<notin> existing_canvas_ids st"
    and "planned_record parse cfg cls a = Some rec"
    and "create N (world st) rec = (Inl e, w')"
    and "canvas_id a \<notin> canvas_id ` set mid"
    and "for_each (process_assignment N parse cfg cls now wk) mid None (try_create N rec st)
           = Done st2"
  shows "process_assignment N parse cfg cls now wk a st = Done (try_create N rec st)
    \<and> existing_canvas_ids (try_create N rec st) = existing_canvas_ids st
    \<and> trace (try_create N rec st) = trace st @ [CreateCall rec, CreateFailed (canvas_id a) e]
    \<and> canvas_id a \<notin> existing_canvas_ids st2
    \<and> (\<exists>rec' st3 es. planned_record parse cfg cls a' = Some rec'
          \<and> for_each (process_assignment N parse cfg cls now wk) (a # mid @ [a']) None st
              = Done st3
          \<and> trace st3 = trace st @ es
          \<and> count_list (create_calls es) (canvas_id a) = 2)"
proof -
  let ?body = "process_assignment N parse cfg cls now wk"
  let ?s1 = "try_create N rec st"
  let ?X = "canvas_id a"
  from eligible_planned [OF assms(1), of cfg cls] assms(5)
  have id: "r_canvas_id rec = ?X" by simp
  have p1: "?body a st = Done ?s1"
    by (rule process_eligible [OF assms(1,4,5)])
  have s1: "?s1 = st\<lparr>world := w', trace := trace st @ [CreateCall rec, CreateFailed ?X e]\<rparr>"
    using try_create_failed [OF assms(6)] by (simp only: id)
  have i1: "existing_canvas_ids ?s1 = existing_canvas_ids st" by (subst s1) simp
  have t1: "trace ?s1 = trace st @ [CreateCall rec, CreateFailed ?X e]" by (subst s1) simp
  from loop_within [of mid ?s1 N parse cfg cls now wk None] assms(8)
  have "within (canvas_id ` set mid) ?s1 st2" by simp
  then obtain esm where m: "trace st2 = trace ?s1 @ esm"
    "set (create_calls esm) \<subseteq> canvas_id ` set mid"
    "existing_canvas_ids st2 \<subseteq> existing_canvas_ids ?s1 \<union> canvas_id ` set mid"
    unfolding within_def by (elim exE conjE)
  have fresh2: "?X \<notin> existing_canvas_ids st2"
  proof
    assume "?X \<in> existing_canvas_ids st2"
    with m(3) have "?X \<in> existing_canvas_ids ?s1 \<or> ?X \<in> canvas_id ` set mid"
      by (auto simp: subset_iff)
    with i1 assms(4,7) show False by simp
  qed
  have nom: "?X \<notin> set (create_calls esm)"
    using m(2) assms(7) by (auto simp: subset_iff)
  from eligible_planned [OF assms(2), of cfg cls] obtain rec' where
    rec': "planned_record parse cfg cls a' = Some rec'" "r_canvas_id rec' = canvas_id a'"
    by (elim exE conjE)
  have fresh2': "canvas_id a' \<notin> existing_canvas_ids st2" using fresh2 assms(3) by simp
  have p3: "?body a' st2 = Done (try_create N rec' st2)"
    by (rule process_eligible [OF assms(2) fresh2' rec'(1)])
  from try_create_shape [of N rec' st2] obtain ev where
    t3: "trace (try_create N rec' st2) = trace st2 @ [CreateCall rec', ev]"
    and ev: "(ev = Added (r_canvas_id rec')
           \<and> existing_canvas_ids (try_create N rec' st2)
               = insert (r_canvas_id rec') (existing_canvas_ids st2))
        \<or> ((\<exists>e. ev = CreateFailed (r_canvas_id rec') e)
           \<and> existing_canvas_ids (try_create N rec' st2) = existing_canvas_ids st2)"
    by (elim exE conjE)
  have cev: "create_calls [ev] = []" using ev by (elim disjE conjE exE) simp_all
  let ?es = "[CreateCall rec, CreateFailed ?X e] @ esm @ [CreateCall rec', ev]"
  have loop: "for_each ?body (a # mid @ [a']) None st = Done (try_create N rec' st2)"
    using p1 assms(8) p3 by (simp add: for_each_append)
  have tr: "trace (try_create N rec' st2) = trace st @ ?es"
    using t3 m(1) t1 by simp
  have "create_calls ?es = ?X # create_calls esm @ [?X]"
    using cev id rec'(2) assms(3) by simp
  then have cnt: "count_list (create_calls ?es) ?X = 2"
    using nom by (simp add: count_list_0_iff)
  have ex: "\<exists>rec' st3 es. planned_record parse cfg cls a' = Some rec'
          \<and> for_each ?body (a # mid @ [a']) None st = Done st3
          \<and> trace st3 = trace st @ es
          \<and> count_list (create_calls es) ?X = 2"
    by (intro exI [of _ rec'] exI [of _ "try_create N rec' st2"] exI [of _ ?es] conjI
        rec'(1) loop tr cnt)
  show ?thesis by (intro conjI p1 i1 t1 fresh2 ex)
qed

theorem failed_create_retried_witness:
  "eligible fromisoformat (Aware demo_now 0) (Aware (demo_now + timedelta_days 7) 0)
     (homework 7 ''2024-01-03T12:00:00Z'')
   \<and> create (sim_notion [] [0]) (world loaded_empty) (planned 7)
       = (Inl (ClientError ''create''), \<lparr>pages = [], n_queries = 1, n_creates = 1\<rparr>)
   \<and> existing_canvas_ids (try_create (sim_notion [] [0]) (planned 7) loaded_empty) = {}
   \<and> (\<exists>rec' st3 es.
         for_each (process_assignment (sim_notion [] [0]) fromisoformat demo_cfg ''Math''
                    (Aware demo_now 0) (Aware (demo_now + timedelta_days 7) 0))
           [homework 7 ''2024-01-03T12:00:00Z'', homework 8 ''2024-01-03T12:00:00Z'',
            homework 7 ''2024-01-03T12:00:00Z''] None loaded_empty = Done st3
         \<and> trace st3 = trace loaded_empty @ es
         \<and> count_list (create_calls es) ''7'' = 2)"
proof -
  let ?N = "sim_notion [] [0] :: (sim_world, nat) notion"
  let ?now = "Aware demo_now 0" and ?wk = "Aware (demo_now + timedelta_days 7) 0"
  let ?a = "homework 7 ''2024-01-03T12:00:00Z''"
  let ?b = "homework 8 ''2024-01-03T12:00:00Z''"
  have ids: "canvas_id ?a = ''7''" "canvas_id ?b = ''8''"
    by (simp_all add: homework_def str_digits)
  have h1: "eligible fromisoformat ?now ?wk ?a" by (rule eligible_homework)
  have h3: "canvas_id ?a = canvas_id ?a" by (rule refl)
  have h4: "canvas_id ?a \<notin> existing_canvas_ids loaded_empty" by (simp add: loaded_empty_def)
  have h5: "planned_record fromisoformat demo_cfg ''Math'' ?a = Some (planned 7)"
    by (rule planned_homework)
  have h6: "create ?N (world loaded_empty) (planned 7)
       = (Inl (ClientError ''create''), \<lparr>pages = [], n_queries = 1, n_creates = 1\<rparr>)"
    by (simp add: sim_notion_def sim_create_def loaded_empty_def)
  have h7: "canvas_id ?a \<notin> canvas_id ` set [?b]" by (simp add: ids)
  have e0: "existing_canvas_ids (try_create ?N (planned 7) loaded_empty) = {}"
    using try_create_failed [OF h6] by (simp add: loaded_empty_def)
  have m1: "\<forall>x\<in>set [?b]. eligible fromisoformat ?now ?wk x" by (simp add: eligible_homework)
  have m2: "distinct (map canvas_id [?b])" by simp
  have m3: "canvas_id ` set [?b] \<inter> existing_canvas_ids (try_create ?N (planned 7) loaded_empty) = {}"
    by (simp only: e0 Int_empty_right)
  from eligible_loop [OF m1 m2 m3, of ?N demo_cfg "''Math''"]
  obtain st2 where h8: "for_each (process_assignment ?N fromisoformat demo_cfg ''Math'' ?now ?wk)
      [?b] None (try_create ?N (planned 7) loaded_empty) = Done st2"
    by (elim exE conjE)
  from failed_create_retried [OF h1 h1 h3 h4 h5 h6 h7 h8]
  have "\<exists>rec' st3 es. planned_record fromisoformat demo_cfg ''Math'' ?a = Some rec'
          \<and> for_each (process_assignment ?N fromisoformat demo_cfg ''Math'' ?now ?wk)
                ([?a] @ [?b] @ [?a]) None loaded_empty = Done st3
          \<and> trace st3 = trace loaded_empty @ es
          \<and> count_list (create_calls es) ''7'' = 2"
    by (simp only: ids append_Cons append_Nil)
  then have ex: "\<exists>rec' st3 es.
         for_each (process_assignment ?N fromisoformat demo_cfg ''Math'' ?now ?wk)
           [?a, ?b, ?a] None loaded_empty = Done st3
         \<and> trace st3 = trace loaded_empty @ es
         \<and> count_list (create_calls es) ''7'' = 2"
    by (simp only: append_Cons append_Nil) (elim exE conjE, intro exI conjI; assumption)
  show ?thesis by (intro conjI h1 h6 e0 ex)
qed

subsection \<open>The window\<close>

lemma days_before_month_numeral:
  "days_before_month y (numeral k) =
     (if pred_numeral k = 0 then 0
      else days_before_month y (pred_numeral k) + days_in_month y (pred_numeral k))"
  by (simp add: numeral_eq_Suc)

lemma parse_dec_31:
  "fromisoformat (replace ''Z'' ''+00:00'' ''2023-12-31T23:59:59Z'')
     = Inr (Aware (demo_now - timedelta_seconds 1) 0)"
  by (simp add: parse_defs demo_now_def timedelta_seconds_def days_before_month_numeral)

lemma parse_boundaries:
  "fromisoformat (replace ''Z'' ''+00:00'' ''2024-01-01T00:00:00Z'') = Inr (Aware demo_now 0)"
  "fromisoformat (replace ''Z'' ''+00:00'' ''2024-01-08T00:00:00Z'')
     = Inr (Aware (demo_now + timedelta_days 7) 0)"
  "fromisoformat (replace ''Z'' ''+00:00'' ''2024-01-08T00:00:01Z'')
     = Inr (Aware (demo_now + timedelta_days 7 + timedelta_seconds 1) 0)"
  by (simp_all add: parse_defs demo_now_def timedelta_days_def timedelta_seconds_def)

lemma single_assignment_run:
  assumes "0 \<le> T" and "T + timedelta_days 7 \<le> MAX_DATETIME"
    and "fetch_existing_canvas_ids N (NOTION_DATABASE_ID cfg) w = Some (Done st0)"
    and "snd (get_courses C) = None"
    and "filter (\<lambda>x. name_map cfg (c_name x) \<noteq> None) (fst (get_courses C)) = [c]"
    and "name_map cfg (c_name c) = Some cls"
    and "get_assignments C c = ([a], None)"
    and "due_at a = Some s" and "s \<noteq> []"
    and "parse (replace ''Z'' ''+00:00'' s) = Inr (Aware l off)"
    and "canvas_id a \<notin> existing_canvas_ids st0"
    and "dt_add (Aware l off) (timedelta_minutes 30) = Inr end_at"
  shows "\<exists>st' es. run N C parse cfg T w = Some (Done st')
     \<and> trace st' = trace st0 @ GetCourses # GetAssignments c # es
     \<and> create_calls es
         = (if T \<le> l - off \<and> l - off \<le> T + timedelta_days 7 then [canvas_id a] else [])"
proof -
  let ?now = "Aware T 0" and ?wk = "Aware (T + timedelta_days 7) 0"
  let ?s = "emit (GetAssignments c) (emit GetCourses st0)"
  have tr: "trace ?s = trace st0 @ [GetCourses, GetAssignments c]" by (simp add: emit_def)
  have fresh: "canvas_id a \<notin> existing_canvas_ids ?s" using assms(11) by (simp add: emit_def)
  have pass: "sync_pass N C parse cfg T st0 = for_each (process_assignment N parse cfg cls ?now ?wk)
      [a] None ?s"
    by (rule single_course_pass [OF assms(1,2,4,5,6,7)])
  have run: "run N C parse cfg T w = Some (sync_pass N C parse cfg T st0)"
    using assms(3) by (simp add: run_def)
  have pa: "process_assignment N parse cfg cls ?now ?wk a ?s
        = (if T \<le> l - off \<and> l - off \<le> T + timedelta_days 7
           then sync_decision N cfg cls a (Aware l off) ?s else Done ?s)"
    using assms(8,9,10) by (simp add: process_assignment_def in_window_aware)
  show ?thesis
  proof (cases "T \<le> l - off \<and> l - off \<le> T + timedelta_days 7")
    case False
    have "run N C parse cfg T w = Some (Done ?s)"
      using run pass pa False by simp
    moreover have "trace ?s = trace st0 @ GetCourses # GetAssignments c # []" using tr by simp
    moreover have "create_calls []
         = (if T \<le> l - off \<and> l - off \<le> T + timedelta_days 7 then [canvas_id a] else [])"
      using False by simp
    ultimately show ?thesis by (intro exI [of _ ?s] exI [of _ "[]"] conjI)
  next
    case True
    let ?rec = "build_record cfg cls a (Aware l off) end_at (canvas_id a)"
    have sd: "sync_decision N cfg cls a (Aware l off) ?s = Done (try_create N ?rec ?s)"
      using fresh assms(12) by (simp add: sync_decision_def)
    from try_create_shape [of N ?rec ?s] obtain ev where
      t: "trace (try_create N ?rec ?s) = trace ?s @ [CreateCall ?rec, ev]"
      and ev: "(ev = Added (r_canvas_id ?rec)
           \<and> existing_canvas_ids (try_create N ?rec ?s)
               = insert (r_canvas_id ?rec) (existing_canvas_ids ?s))
        \<or> ((\<exists>e. ev = CreateFailed (r_canvas_id ?rec) e)
           \<and> existing_canvas_ids (try_create N ?rec ?s) = existing_canvas_ids ?s)"
      by (elim exE conjE)
    have cev: "create_calls [ev] = []" using ev by (elim disjE conjE exE) simp_all
    have r: "run N C parse cfg T w = Some (Done (try_create N ?rec ?s))"
      using run pass pa sd True by simp
    have t': "trace (try_create N ?rec ?s)
        = trace st0 @ GetCourses # GetAssignments c # [CreateCall ?rec, ev]"
      using t tr by simp
    have c: "create_calls [CreateCall ?rec, ev]
         = (if T \<le> l - off \<and> l - off \<le> T + timedelta_days 7 then [canvas_id a] else [])"
      using True cev by (simp add: build_record_def)
    show ?thesis
      by (intro exI [of _ "try_create N ?rec ?s"] exI [of _ "[CreateCall ?rec, ev]"] conjI r t' c)
  qed
qed

text \<open>
  C2. The window of a run is closed at both ends. With \<open>T\<close> the clock reading of the
  run, the pass computes the upper bound \<open>T\<close> plus seven days and hands \<open>T\<close> and that
  bound to every course and assignment. An assignment whose due date parses to an aware
  instant goes on to the duplicate check exactly when its UTC instant \<open>d\<close> satisfies
  \<open>T \<le> d \<le> T + 7 days\<close>; otherwise it is skipped. An instant equal to \<open>T\<close> or to
  \<open>T + 7 days\<close> is inside; one second before \<open>T\<close> and one second after
  \<open>T + 7 days\<close> are outside. In a run whose one mapped course holds one such
  assignment, new to the baseline, a create call is issued exactly when \<open>d\<close> is in
  the window.
\<close>

theorem window_inclusive:
  assumes "0 \<le> T" and "T + timedelta_days 7 \<le> MAX_DATETIME"
    and "due_at a = Some s" and "s \<noteq> []"
    and "parse (replace ''Z'' ''+00:00'' s) = Inr (Aware l off)"
  shows "dt_add (Aware T 0) (timedelta_days 7) = Inr (Aware (T + timedelta_days 7) 0)
    \<and> sync_pass N C parse cfg T st
        = for_each (process_course N C parse cfg (Aware T 0) (Aware (T + timedelta_days 7) 0))
            (fst (get_courses C)) (snd (get_courses C)) (emit GetCourses st)
    \<and> in_window (Aware T 0) (Aware (T + timedelta_days 7) 0) (Aware l off)
        = Inr (T \<le> l - off \<and> l - off \<le> T + timedelta_days 7)
    \<and> process_assignment N parse cfg cls (Aware T 0) (Aware (T + timedelta_days 7) 0) a st
        = (if T \<le> l - off \<and> l - off \<le> T + timedelta_days 7
           then sync_decision N cfg cls a (Aware l off) st else Done st)
    \<and> in_window (Aware T 0) (Aware (T + timedelta_days 7) 0) (Aware T 0) = Inr True
    \<and> in_window (Aware T 0) (Aware (T + timedelta_days 7) 0) (Aware (T + timedelta_days 7) 0)
        = Inr True
    \<and> in_window (Aware T 0) (Aware (T + timedelta_days 7) 0) (Aware (T - timedelta_seconds 1) 0)
        = Inr False
    \<and> in_window (Aware T 0) (Aware (T + timedelta_days 7) 0)
        (Aware (T + timedelta_days 7 + timedelta_seconds 1) 0) = Inr False
    \<and> (fetch_existing_canvas_ids N (NOTION_DATABASE_ID cfg) w = Some (Done st0)
        \<and> snd (get_courses C) = None
        \<and> filter (\<lambda>x. name_map cfg (c_name x) \<noteq> None) (fst (get_courses C)) = [c]
        \<and> name_map cfg (c_name c) = Some cls
        \<and> get_assignments C c = ([a], None)
        \<and> canvas_id a \<notin> existing_canvas_ids st0
        \<and> dt_add (Aware l off) (timedelta_minutes 30) = Inr end_at
        \<longrightarrow> (\<exists>st' es. run N C parse cfg T w = Some (Done st')
              \<and> trace st' = trace st0 @ GetCourses # GetAssignments c # es
              \<and> create_calls es
                  = (if T \<le> l - off \<and> l - off \<le> T + timedelta_days 7
                     then [canvas_id a] else [])))"
proof -
  have a: "dt_add (Aware T 0) (timedelta_days 7) = Inr (Aware (T + timedelta_days 7) 0)"
    using assms(1,2) by (rule week_out_ok)
  have p: "sync_pass N C parse cfg T st
        = for_each (process_course N C parse cfg (Aware T 0) (Aware (T + timedelta_days 7) 0))
            (fst (get_courses C)) (snd (get_courses C)) (emit GetCourses st)"
    using a by (simp add: sync_pass_def)
  have w: "in_window (Aware T 0) (Aware (T + timedelta_days 7) 0) (Aware l off)
        = Inr (T \<le> l - off \<and> l - off \<le> T + timedelta_days 7)"
    by (rule in_window_aware)
  have b: "process_assignment N parse cfg cls (Aware T 0) (Aware (T + timedelta_days 7) 0) a st
        = (if T \<le> l - off \<and> l - off \<le> T + timedelta_days 7
           then sync_decision N cfg cls a (Aware l off) st else Done st)"
    using assms(3,4,5) by (simp add: process_assignment_def in_window_aware)
  have c: "in_window (Aware T 0) (Aware (T + timedelta_days 7) 0) (Aware T 0) = Inr True"
    by (simp add: in_window_aware timedelta_days_def)
  have d: "in_window (Aware T 0) (Aware (T + timedelta_days 7) 0) (Aware (T + timedelta_days 7) 0)
        = Inr True"
    by (simp add: in_window_aware timedelta_days_def)
  have e: "in_window (Aware T 0) (Aware (T + timedelta_days 7) 0) (Aware (T - timedelta_seconds 1) 0)
        = Inr False"
    by (simp add: in_window_aware timedelta_seconds_def)
  have f: "in_window (Aware T 0) (Aware (T + timedelta_days 7) 0)
        (Aware (T + timedelta_days 7 + timedelta_seconds 1) 0) = Inr False"
    by (simp add: in_window_aware timedelta_seconds_def)
  have r: "fetch_existing_canvas_ids N (NOTION_DATABASE_ID cfg) w = Some (Done st0)
        \<and> snd (get_courses C) = None
        \<and> filter (\<lambda>x. name_map cfg (c_name x) \<noteq> None) (fst (get_courses C)) = [c]
        \<and> name_map cfg (c_name c) = Some cls
        \<and> get_assignments C c = ([a], None)
        \<and> canvas_id a \<notin> existing_canvas_ids st0
        \<and> dt_add (Aware l off) (timedelta_minutes 30) = Inr end_at
        \<longrightarrow> (\<exists>st' es. run N C parse cfg T w = Some (Done st')
              \<and> trace st' = trace st0 @ GetCourses # GetAssignments c # es
              \<and> create_calls es
                  = (if T \<le> l - off \<and> l - off \<le> T + timedelta_days 7
                     then [canvas_id a] else []))"
  proof (intro impI, elim conjE)
    assume h: "fetch_existing_canvas_ids N (NOTION_DATABASE_ID cfg) w = Some (Done st0)"
      "snd (get_courses C) = None"
      "filter (\<lambda>x. name_map cfg (c_name x) \<noteq> None) (fst (get_courses C)) = [c]"
      "name_map cfg (c_name c) = Some cls" "get_assignments C c = ([a], None)"
      "canvas_id a \<notin> existing_canvas_ids st0"
      "dt_add (Aware l off) (timedelta_minutes 30) = Inr end_at"
    show "\<exists>st' es. run N C parse cfg T w = Some (Done st')
              \<and> trace st' = trace st0 @ GetCourses # GetAssignments c # es
              \<and> create_calls es
                  = (if T \<le> l - off \<and> l - off \<le> T + timedelta_days 7
                     then [canvas_id a] else [])"
      by (rule single_assignment_run [where parse = parse, OF assms(1,2) h(1,2,3,4,5) assms(3,4,5) h(6,7)])
  qed
  show ?thesis by (intro conjI a p w b c d e f r)
qed

theorem window_inclusive_witness:
  "0 \<le> demo_now \<and> demo_now + timedelta_days 7 \<le> MAX_DATETIME
   \<and> fromisoformat (replace ''Z'' ''+00:00'' ''2024-01-01T00:00:00Z'') = Inr (Aware demo_now 0)
   \<and> fromisoformat (replace ''Z'' ''+00:00'' ''2024-01-08T00:00:00Z'')
       = Inr (Aware (demo_now + timedelta_days 7) 0)
   \<and> fromisoformat (replace ''Z'' ''+00:00'' ''2023-12-31T23:59:59Z'')
       = Inr (Aware (demo_now - timedelta_seconds 1) 0)
   \<and> fromisoformat (replace ''Z'' ''+00:00'' ''2024-01-08T00:00:01Z'')
       = Inr (Aware (demo_now + timedelta_days 7 + timedelta_seconds 1) 0)
   \<and> (\<exists>st' es. run (sim_notion [] []) (canvas_of [homework 7 ''2024-01-01T00:00:00Z''] [])
            fromisoformat demo_cfg demo_now (sim_store []) = Some (Done st')
        \<and> trace st' = trace loaded_empty @ GetCourses # GetAssignments algebra # es
        \<and> create_calls es = [''7''])
   \<and> (\<exists>st' es. run (sim_notion [] []) (canvas_of [homework 7 ''2024-01-08T00:00:00Z''] [])
            fromisoformat demo_cfg demo_now (sim_store []) = Some (Done st')
        \<and> trace st' = trace loaded_empty @ GetCourses # GetAssignments algebra # es
        \<and> create_calls es = [''7''])
   \<and> (\<exists>st' es. run (sim_notion [] []) (canvas_of [homework 7 ''2023-12-31T23:59:59Z''] [])
            fromisoformat demo_cfg demo_now (sim_store []) = Some (Done st')
        \<and> trace st' = trace loaded_empty @ GetCourses # GetAssignments algebra # es
        \<and> create_calls es = [])
   \<and> (\<exists>st' es. run (sim_notion [] []) (canvas_of [homework 7 ''2024-01-08T00:00:01Z''] [])
            fromisoformat demo_cfg demo_now (sim_store []) = Some (Done st')
        \<and> trace st' = trace loaded_empty @ GetCourses # GetAssignments algebra # es
        \<and> create_calls es = [])"
proof -
  let ?N = "sim_notion [] [] :: (sim_world, nat) notion"
  have h1: "0 \<le> demo_now" and h2: "demo_now + timedelta_days 7 \<le> MAX_DATETIME"
    using demo_window by simp_all
  have f: "fetch_existing_canvas_ids ?N (NOTION_DATABASE_ID demo_cfg) (sim_store [])
     = Some (Done loaded_empty)"
    using fetch_empty_store [of "[]"] by (simp add: demo_cfg_def)
  have m: "name_map demo_cfg (c_name algebra) = Some ''Math''"
    by (simp add: demo_cfg_def algebra_def)
  have one: "\<exists>st' es. run ?N (canvas_of [homework 7 d] []) fromisoformat demo_cfg demo_now
            (sim_store []) = Some (Done st')
        \<and> trace st' = trace loaded_empty @ GetCourses # GetAssignments algebra # es
        \<and> create_calls es
            = (if demo_now \<le> l - 0 \<and> l - 0 \<le> demo_now + timedelta_days 7 then [''7'']
               else [])"
    if p: "fromisoformat (replace ''Z'' ''+00:00'' d) = Inr (Aware l 0)" and ne: "d \<noteq> []"
      and e: "dt_add (Aware l 0) (timedelta_minutes 30) = Inr end_at"
    for d l end_at
  proof -
    have du: "due_at (homework 7 d) = Some d" by (simp add: homework_def)
    have id: "canvas_id (homework 7 d) = ''7''" by (simp add: homework_def str_digits)
    have c: "snd (get_courses (canvas_of [homework 7 d] [])) = None" by (simp add: canvas_of_def)
    have g: "get_assignments (canvas_of [homework 7 d] []) algebra = ([homework 7 d], None)"
      by (simp add: canvas_of_def)
    have fr: "canvas_id (homework 7 d) \<notin> existing_canvas_ids loaded_empty"
      by (simp add: loaded_empty_def)
    from window_inclusive [where parse = fromisoformat and T = demo_now and a = "homework 7 d"
        and s = d and l = l and off = 0 and N = ?N and cfg = demo_cfg and cls = "''Math''"
        and C = "canvas_of [homework 7 d] []" and c = algebra and w = "sim_store []"
        and ?st0.0 = loaded_empty and end_at = end_at and st = loaded_empty,
        OF h1 h2 du ne p]
    have "fetch_existing_canvas_ids ?N (NOTION_DATABASE_ID demo_cfg) (sim_store [])
            = Some (Done loaded_empty)
        \<and> snd (get_courses (canvas_of [homework 7 d] [])) = None
        \<and> filter (\<lambda>x. name_map demo_cfg (c_name x) \<noteq> None)
              (fst (get_courses (canvas_of [homework 7 d] []))) = [algebra]
        \<and> name_map demo_cfg (c_name algebra) = Some ''Math''
        \<and> get_assignments (canvas_of [homework 7 d] []) algebra = ([homework 7 d], None)
        \<and> canvas_id (homework 7 d) \<notin> existing_canvas_ids loaded_empty
        \<and> dt_add (Aware l 0) (timedelta_minutes 30) = Inr end_at
        \<longrightarrow> (\<exists>st' es. run ?N (canvas_of [homework 7 d] []) fromisoformat demo_cfg demo_now
                (sim_store []) = Some (Done st')
              \<and> trace st' = trace loaded_empty @ GetCourses # GetAssignments algebra # es
              \<and> create_calls es
                  = (if demo_now \<le> l - 0 \<and> l - 0 \<le> demo_now + timedelta_days 7
                     then [canvas_id (homework 7 d)] else []))"
      by (elim conjE)
    from this [rule_format, OF conjI [OF f conjI [OF c conjI [OF algebra_only conjI [OF m
          conjI [OF g conjI [OF fr e]]]]]]]
    show ?thesis by (simp only: id)
  qed
  have e1: "dt_add (Aware demo_now 0) (timedelta_minutes 30)
      = Inr (Aware (demo_now + timedelta_minutes 30) 0)"
    and e2: "dt_add (Aware (demo_now + timedelta_days 7) 0) (timedelta_minutes 30)
      = Inr (Aware (demo_now + timedelta_days 7 + timedelta_minutes 30) 0)"
    and e3: "dt_add (Aware (demo_now - timedelta_seconds 1) 0) (timedelta_minutes 30)
      = Inr (Aware (demo_now - timedelta_seconds 1 + timedelta_minutes 30) 0)"
    and e4: "dt_add (Aware (demo_now + timedelta_days 7 + timedelta_seconds 1) 0)
        (timedelta_minutes 30)
      = Inr (Aware (demo_now + timedelta_days 7 + timedelta_seconds 1 + timedelta_minutes 30) 0)"
    by (simp_all add: demo_now_def timedelta_days_def timedelta_minutes_def timedelta_seconds_def
        MAX_DATETIME_def)
  have r1: "\<exists>st' es. run ?N (canvas_of [homework 7 ''2024-01-01T00:00:00Z''] [])
            fromisoformat demo_cfg demo_now (sim_store []) = Some (Done st')
        \<and> trace st' = trace loaded_empty @ GetCourses # GetAssignments algebra # es
        \<and> create_calls es = [''7'']"
    using one [OF parse_boundaries(1) _ e1] by (simp add: timedelta_days_def)
  have r2: "\<exists>st' es. run ?N (canvas_of [homework 7 ''2024-01-08T00:00:00Z''] [])
            fromisoformat demo_cfg demo_now (sim_store []) = Some (Done st')
        \<and> trace st' = trace loaded_empty @ GetCourses # GetAssignments algebra # es
        \<and> create_calls es = [''7'']"
    using one [OF parse_boundaries(2) _ e2] by (simp add: timedelta_days_def)
  have r3: "\<exists>st' es. run ?N (canvas_of [homework 7 ''2023-12-31T23:59:59Z''] [])
            fromisoformat demo_cfg demo_now (sim_store []) = Some (Done st')
        \<and> trace st' = trace loaded_empty @ GetCourses # GetAssignments algebra # es
        \<and> create_calls es = []"
    using one [OF parse_dec_31 _ e3] by (simp add: timedelta_seconds_def)
  have r4: "\<exists>st' es. run ?N (canvas_of [homework 7 ''2024-01-08T00:00:01Z''] [])
            fromisoformat demo_cfg demo_now (sim_store []) = Some (Done st')
        \<and> trace st' = trace loaded_empty @ GetCourses # GetAssignments algebra # es
        \<and> create_calls es = []"
    using one [OF parse_boundaries(3) _ e4] by (simp add: timedelta_seconds_def)
  show ?thesis
    by (intro conjI h1 h2 parse_boundaries parse_dec_31 r1 r2 r3 r4)
qed

subsection \<open>Due dates\<close>

lemma field_append:
  "pos + len \<le> length t \<Longrightarrow> field (t @ u) pos len = field t pos len"
  by (simp add: field_def)

lemma parse_local_append:
  assumes "length t = 19"
  shows "parse_local (t @ u) = parse_local t"
proof -
  have f: "field (t @ u) 0 4 = field t 0 4" "field (t @ u) 5 2 = field t 5 2"
    "field (t @ u) 8 2 = field t 8 2" "field (t @ u) 11 2 = field t 11 2"
    "field (t @ u) 14 2 = field t 14 2" "field (t @ u) 17 2 = field t 17 2"
    using assms by (simp_all add: field_append)
  have n: "(t @ u) ! 4 = t ! 4" "(t @ u) ! 7 = t ! 7" "(t @ u) ! 13 = t ! 13"
    "(t @ u) ! 16 = t ! 16"
    using assms by (simp_all add: nth_append)
  show ?thesis by (simp only: parse_local_def f n)
qed

lemma parse_offset_utc:
  assumes "length t = 19"
  shows "parse_offset (t @ ''+00:00'') = Some 0"
  using assms by (simp add: parse_offset_def field_def nth_append digit_of_def)

lemma fromisoformat_utc:
  assumes "length t = 19" and "parse_local t = Some l"
  shows "fromisoformat (t @ ''+00:00'') = Inr (Aware l 0)"
  using assms by (simp add: fromisoformat_def parse_local_append parse_offset_utc)

lemma parse_local_jan_3: "parse_local ''2024-01-03T12:00:00'' = Some 63839880000000000"
  by (simp add: parse_defs)

text \<open>
  C8, as amended. An assignment whose due date is absent or the empty string is
  skipped: the state is unchanged, so no create call is made. Otherwise the string goes
  through \<^verbatim>\<open>replace("Z", "+00:00")\<close>, which rewrites every \<^verbatim>\<open>Z\<close> and so a final one,
  and then to the parser; the parsed value is the one compared with the window. For a
  due date written \<^verbatim>\<open>YYYY-MM-DDTHH:MM:SSZ\<close> the parsed value is aware with offset
  zero, its UTC instant is the local reading, and that instant is compared with the
  window; the assignment is treated exactly as the one written with \<^verbatim>\<open>+00:00\<close>. A
  due date that parses to a naive value is not compared: the comparison raises
  \<^verbatim>\<open>TypeError\<close>.
\<close>

theorem due_date_handling:
  "((due_at a = None \<or> due_at a = Some []) \<longrightarrow>
       process_assignment N parse cfg cls now wk a st = Done st)
   \<and> (due_at a = Some s \<and> s \<noteq> [] \<longrightarrow>
       process_assignment N parse cfg cls now wk a st =
         (case parse (replace ''Z'' ''+00:00'' s) of
            Inl e \<Rightarrow> Raised e st
          | Inr due \<Rightarrow>
              (case in_window now wk due of
                 Inl e \<Rightarrow> Raised e st
               | Inr inside \<Rightarrow>
                   (if \<not> inside then Done st else sync_decision N cfg cls a due st))))
   \<and> replace ''Z'' ''+00:00'' (t @ ''Z'') = replace ''Z'' ''+00:00'' t @ ''+00:00''
   \<and> (CHR ''Z'' \<notin> set t \<longrightarrow>
        replace ''Z'' ''+00:00'' (t @ ''Z'') = t @ ''+00:00''
        \<and> process_assignment N parse cfg cls now wk (a\<lparr>due_at := Some (t @ ''Z'')\<rparr>) st
            = process_assignment N parse cfg cls now wk (a\<lparr>due_at := Some (t @ ''+00:00'')\<rparr>) st)
   \<and> (CHR ''Z'' \<notin> set t \<and> length t = 19 \<and> parse_local t = Some l \<longrightarrow>
        fromisoformat (replace ''Z'' ''+00:00'' (t @ ''Z'')) = Inr (Aware l 0)
        \<and> utc_instant (Aware l 0) = Some l
        \<and> process_assignment N fromisoformat cfg cls (Aware T 0) (Aware W 0)
             (a\<lparr>due_at := Some (t @ ''Z'')\<rparr>) st
            = (if T \<le> l \<and> l \<le> W
               then sync_decision N cfg cls (a\<lparr>due_at := Some (t @ ''Z'')\<rparr>) (Aware l 0) st
               else Done st))
   \<and> (due_at a = Some s \<and> s \<noteq> [] \<and> parse (replace ''Z'' ''+00:00'' s) = Inr (Naive n) \<longrightarrow>
        process_assignment N parse cfg cls (Aware T 0) wk a st = Raised TypeError st)"
proof -
  have a: "(due_at a = None \<or> due_at a = Some []) \<longrightarrow>
       process_assignment N parse cfg cls now wk a st = Done st"
    by (auto simp: process_assignment_def)
  have b: "due_at a = Some s \<and> s \<noteq> [] \<longrightarrow>
       process_assignment N parse cfg cls now wk a st =
         (case parse (replace ''Z'' ''+00:00'' s) of
            Inl e \<Rightarrow> Raised e st
          | Inr due \<Rightarrow>
              (case in_window now wk due of
                 Inl e \<Rightarrow> Raised e st
               | Inr inside \<Rightarrow>
                   (if \<not> inside then Done st else sync_decision N cfg cls a due st)))"
    by (simp add: process_assignment_def)
  have c: "replace ''Z'' ''+00:00'' (t @ ''Z'') = replace ''Z'' ''+00:00'' t @ ''+00:00''"
    by (simp add: replace_Z_append)
  have d: "replace ''Z'' ''+00:00'' (t @ ''Z'') = t @ ''+00:00''" if "CHR ''Z'' \<notin> set t"
    using that by (simp add: replace_Z_append replace_Z_id)
  have d': "replace ''Z'' ''+00:00'' (t @ ''+00:00'') = t @ ''+00:00''" if "CHR ''Z'' \<notin> set t"
    using that by (simp add: replace_Z_append replace_Z_id)
  have e: "process_assignment N parse cfg cls now wk (a\<lparr>due_at := Some (t @ ''Z'')\<rparr>) st
            = process_assignment N parse cfg cls now wk (a\<lparr>due_at := Some (t @ ''+00:00'')\<rparr>) st"
    if "CHR ''Z'' \<notin> set t"
    using d [OF that] d' [OF that]
    by (simp add: process_assignment_def sync_decision_def build_record_def split: sum.splits)
  have de: "CHR ''Z'' \<notin> set t \<longrightarrow>
        replace ''Z'' ''+00:00'' (t @ ''Z'') = t @ ''+00:00''
        \<and> process_assignment N parse cfg cls now wk (a\<lparr>due_at := Some (t @ ''Z'')\<rparr>) st
            = process_assignment N parse cfg cls now wk (a\<lparr>due_at := Some (t @ ''+00:00'')\<rparr>) st"
    using d e by (intro impI conjI)
  have u: "CHR ''Z'' \<notin> set t \<and> length t = 19 \<and> parse_local t = Some l \<longrightarrow>
        fromisoformat (replace ''Z'' ''+00:00'' (t @ ''Z'')) = Inr (Aware l 0)
        \<and> utc_instant (Aware l 0) = Some l
        \<and> process_assignment N fromisoformat cfg cls (Aware T 0) (Aware W 0)
             (a\<lparr>due_at := Some (t @ ''Z'')\<rparr>) st
            = (if T \<le> l \<and> l \<le> W
               then sync_decision N cfg cls (a\<lparr>due_at := Some (t @ ''Z'')\<rparr>) (Aware l 0) st
               else Done st)"
  proof (intro impI, elim conjE)
    assume z: "CHR ''Z'' \<notin> set t" and len: "length t = 19" and pl: "parse_local t = Some l"
    have p: "fromisoformat (replace ''Z'' ''+00:00'' (t @ ''Z'')) = Inr (Aware l 0)"
      using fromisoformat_utc [OF len pl] by (simp only: d [OF z])
    have q: "process_assignment N fromisoformat cfg cls (Aware T 0) (Aware W 0)
             (a\<lparr>due_at := Some (t @ ''Z'')\<rparr>) st
            = (if T \<le> l \<and> l \<le> W
               then sync_decision N cfg cls (a\<lparr>due_at := Some (t @ ''Z'')\<rparr>) (Aware l 0) st
               else Done st)"
      using p by (simp add: process_assignment_def in_window_aware)
    from p q show "fromisoformat (replace ''Z'' ''+00:00'' (t @ ''Z'')) = Inr (Aware l 0)
        \<and> utc_instant (Aware l 0) = Some l
        \<and> process_assignment N fromisoformat cfg cls (Aware T 0) (Aware W 0)
             (a\<lparr>due_at := Some (t @ ''Z'')\<rparr>) st
            = (if T \<le> l \<and> l \<le> W
               then sync_decision N cfg cls (a\<lparr>due_at := Some (t @ ''Z'')\<rparr>) (Aware l 0) st
               else Done st)"
      by simp
  qed
  have v: "due_at a = Some s \<and> s \<noteq> [] \<and> parse (replace ''Z'' ''+00:00'' s) = Inr (Naive n) \<longrightarrow>
        process_assignment N parse cfg cls (Aware T 0) wk a st = Raised TypeError st"
    by (simp add: process_assignment_def in_window_naive)
  show ?thesis by (intro conjI a b c de u v)
qed

text \<open>
  C8 as stated fails: a due date with neither \<^verbatim>\<open>Z\<close> nor an offset does not give an
  aware instant; it parses to a naive value and the window comparison raises.
\<close>

theorem naive_due_date_counterexample:
  "fromisoformat (replace ''Z'' ''+00:00'' ''2024-01-03T12:00:00'') = Inr (Naive 63839880000000000)
   \<and> process_assignment (sim_notion [] []) fromisoformat demo_cfg ''Math'' (Aware demo_now 0)
        (Aware (demo_now + timedelta_days 7) 0) (homework 7 ''2024-01-03T12:00:00'') empty_state
      = Raised TypeError empty_state"
  by (simp add: parse_defs process_assignment_def in_window_naive homework_def)

theorem due_date_handling_witness:
  "due_at (undated 3) = None
   \<and> process_assignment (sim_notion [] []) fromisoformat demo_cfg ''Math'' (Aware demo_now 0)
        (Aware (demo_now + timedelta_days 7) 0) (undated 3) empty_state = Done empty_state
   \<and> length ''2024-01-03T12:00:00'' = 19
   \<and> parse_local ''2024-01-03T12:00:00'' = Some 63839880000000000
   \<and> replace ''Z'' ''+00:00'' ''2024-01-03T12:00:00Z'' = ''2024-01-03T12:00:00+00:00''
   \<and> fromisoformat (replace ''Z'' ''+00:00'' ''2024-01-03T12:00:00Z'')
       = Inr (Aware 63839880000000000 0)
   \<and> process_assignment (sim_notion [] []) fromisoformat demo_cfg ''Math'' (Aware demo_now 0)
        (Aware (demo_now + timedelta_days 7) 0) (homework 7 ''2024-01-03T12:00:00Z'') empty_state
      = sync_decision (sim_notion [] []) demo_cfg ''Math'' (homework 7 ''2024-01-03T12:00:00Z'')
          (Aware 63839880000000000 0) empty_state
   \<and> process_assignment (sim_notion [] []) fromisoformat demo_cfg ''Math'' (Aware demo_now 0)
        (Aware (demo_now + timedelta_days 7) 0) (homework 7 ''2024-01-03T12:00:00Z'') empty_state
      = process_assignment (sim_notion [] []) fromisoformat demo_cfg ''Math'' (Aware demo_now 0)
        (Aware (demo_now + timedelta_days 7) 0) (homework 7 ''2024-01-03T12:00:00+00:00'')
        empty_state"
proof -
  have h1: "due_at (undated 3) = None" by (simp add: undated_def)
  have h2: "CHR ''Z'' \<notin> set ''2024-01-03T12:00:00''" by simp
  have h3: "length ''2024-01-03T12:00:00'' = 19" by simp
  have u1: "(homework 7 [])\<lparr>due_at := Some ''2024-01-03T12:00:00Z''\<rparr>
      = homework 7 ''2024-01-03T12:00:00Z''"
    by (simp add: homework_def)
  have u2: "(homework 7 [])\<lparr>due_at := Some ''2024-01-03T12:00:00+00:00''\<rparr>
      = homework 7 ''2024-01-03T12:00:00+00:00''"
    by (simp add: homework_def)
  have inside: "demo_now \<le> 63839880000000000
      \<and> 63839880000000000 \<le> demo_now + timedelta_days 7"
    by (simp add: demo_now_def timedelta_days_def)
  note A = due_date_handling [where a = "undated 3" and N = "sim_notion [] []"
        and parse = fromisoformat and cfg = demo_cfg and cls = "''Math''"
        and now = "Aware demo_now 0" and wk = "Aware (demo_now + timedelta_days 7) 0"
        and st = empty_state and t = "''2024-01-03T12:00:00''" and l = 63839880000000000
        and T = demo_now and W = "demo_now + timedelta_days 7" and s = "[]" and n = 0]
  note B = due_date_handling [where a = "homework 7 []" and N = "sim_notion [] []"
        and parse = fromisoformat and cfg = demo_cfg and cls = "''Math''"
        and now = "Aware demo_now 0" and wk = "Aware (demo_now + timedelta_days 7) 0"
        and st = empty_state and t = "''2024-01-03T12:00:00''" and l = 63839880000000000
        and T = demo_now and W = "demo_now + timedelta_days 7" and s = "[]" and n = 0]
  have c1: "process_assignment (sim_notion [] []) fromisoformat demo_cfg ''Math'' (Aware demo_now 0)
        (Aware (demo_now + timedelta_days 7) 0) (undated 3) empty_state = Done empty_state"
    by (rule A [THEN conjunct1, rule_format, OF disjI1 [OF h1]])
  have c4: "replace ''Z'' ''+00:00'' ''2024-01-03T12:00:00Z'' = ''2024-01-03T12:00:00+00:00''"
    and c6: "process_assignment (sim_notion [] []) fromisoformat demo_cfg ''Math'' (Aware demo_now 0)
        (Aware (demo_now + timedelta_days 7) 0) (homework 7 ''2024-01-03T12:00:00Z'') empty_state
      = process_assignment (sim_notion [] []) fromisoformat demo_cfg ''Math'' (Aware demo_now 0)
        (Aware (demo_now + timedelta_days 7) 0) (homework 7 ''2024-01-03T12:00:00+00:00'')
        empty_state"
    using B [THEN conjunct2, THEN conjunct2, THEN conjunct2, THEN conjunct1, rule_format, OF h2]
    by (simp_all only: u1 u2 append_Cons append_Nil)
  have c5: "fromisoformat (replace ''Z'' ''+00:00'' ''2024-01-03T12:00:00Z'')
       = Inr (Aware 63839880000000000 0)"
    and c7: "process_assignment (sim_notion [] []) fromisoformat demo_cfg ''Math'' (Aware demo_now 0)
        (Aware (demo_now + timedelta_days 7) 0) (homework 7 ''2024-01-03T12:00:00Z'') empty_state
      = sync_decision (sim_notion [] []) demo_cfg ''Math'' (homework 7 ''2024-01-03T12:00:00Z'')
          (Aware 63839880000000000 0) empty_state"
    using B [THEN conjunct2, THEN conjunct2, THEN conjunct2, THEN conjunct2, THEN conjunct1,
        rule_format, OF conjI [OF h2 conjI [OF h3 parse_local_jan_3]]] inside
    by (simp_all only: u1 u2 append_Cons append_Nil if_True simp_thms)
  show ?thesis by (intro conjI h1 c1 h3 parse_local_jan_3 c4 c5 c7 c6)
qed

subsection \<open>A second run\<close>

lemma for_each_Done_keeps:
  assumes "for_each body xs fin st = Done st'"
    and "P st"
    and "\<And>y s s'. y \<in> set xs \<Longrightarrow> P s \<Longrightarrow> body y s = Done s' \<Longrightarrow> P s'"
  shows "P st'"
  using assms
proof (induction xs arbitrary: st)
  case Nil
  then show ?case by (simp split: option.splits)
next
  case (Cons x xs)
  from Cons.prems(1) obtain s1 where s1: "body x st = Done s1" "for_each body xs fin s1 = Done st'"
    by (cases "body x st") simp_all
  have x: "x \<in> set (x # xs)" by simp
  have p1: "P s1" by (rule Cons.prems(3) [OF x Cons.prems(2) s1(1)])
  have keep: "\<And>y s s'. y \<in> set xs \<Longrightarrow> P s \<Longrightarrow> body y s = Done s' \<Longrightarrow> P s'"
  proof -
    fix y s s'
    assume "y \<in> set xs" and ps: "P s" and b: "body y s = Done s'"
    then have "y \<in> set (x # xs)" by simp
    from Cons.prems(3) [OF this ps b] show "P s'" .
  qed
  show ?case by (rule Cons.IH [OF s1(2) p1 keep])
qed

lemma for_each_Done_all:
  assumes "for_each body xs fin st = Done st'"
    and step: "\<And>x s s'. x \<in> set xs \<Longrightarrow> body x s = Done s' \<Longrightarrow> Q x s'"
    and mono: "\<And>x y s s'. Q x s \<Longrightarrow> y \<in> set xs \<Longrightarrow> body y s = Done s' \<Longrightarrow> Q x s'"
  shows "\<forall>x\<in>set xs. Q x st'"
  using assms
proof (induction xs arbitrary: st)
  case Nil
  then show ?case by simp
next
  case (Cons x xs)
  from Cons.prems(1) obtain s1 where s1: "body x st = Done s1" "for_each body xs fin s1 = Done st'"
    by (cases "body x st") simp_all
  have x: "x \<in> set (x # xs)" by simp
  have q1: "Q x s1" by (rule Cons.prems(2) [OF x s1(1)])
  have step': "\<And>y s s'. y \<in> set xs \<Longrightarrow> body y s = Done s' \<Longrightarrow> Q y s'"
  proof -
    fix y s s'
    assume "y \<in> set xs" and b: "body y s = Done s'"
    then have "y \<in> set (x # xs)" by simp
    from Cons.prems(2) [OF this b] show "Q y s'" .
  qed
  have mono': "\<And>z y s s'. Q z s \<Longrightarrow> y \<in> set xs \<Longrightarrow> body y s = Done s' \<Longrightarrow> Q z s'"
  proof -
    fix z y s s'
    assume q: "Q z s" and "y \<in> set xs" and b: "body y s = Done s'"
    then have "y \<in> set (x # xs)" by simp
    from Cons.prems(3) [OF q this b] show "Q z s'" .
  qed
  have qx: "Q x st'"
    by (rule for_each_Done_keeps [where P = "Q x", OF s1(2) q1]) (rule mono')
  have rest: "\<forall>y\<in>set xs. Q y st'"
    by (rule Cons.IH [OF s1(2) step' mono'])
  from qx rest show ?case by simp
qed

lemma dedup_rel_settled:
  assumes "dedup_rel st st'" and "settled a st"
  shows "settled a st'"
proof -
  from assms(1) obtain es where es: "trace st' = trace st @ es"
    "existing_canvas_ids st' = existing_canvas_ids st \<union> set (created es)"
    unfolding dedup_rel_def by (elim exE conjE)
  from assms(2) show ?thesis
    unfolding settled_def
  proof
    assume "canvas_id a \<in> existing_canvas_ids st"
    then show "canvas_id a \<in> existing_canvas_ids st' \<or> canvas_id a \<in> set (failed (trace st'))"
      by (simp add: es(2))
  next
    assume "canvas_id a \<in> set (failed (trace st))"
    then show "canvas_id a \<in> existing_canvas_ids st' \<or> canvas_id a \<in> set (failed (trace st'))"
      by (simp add: es(1))
  qed
qed

lemma passes_filtersD:
  assumes "passes_filters parse now wk a"
  obtains s due where "due_at a = Some s" and "s \<noteq> []"
    and "parse (replace ''Z'' ''+00:00'' s) = Inr due" and "in_window now wk due = Inr True"
proof (cases "due_at a")
  case None
  with assms show ?thesis by (simp add: passes_filters_def)
next
  case (Some s)
  show ?thesis
  proof (cases "parse (replace ''Z'' ''+00:00'' s)")
    case (Inl e)
    with assms Some show ?thesis by (simp add: passes_filters_def)
  next
    case (Inr due)
    with assms Some have "s \<noteq> []" and "in_window now wk due = Inr True"
      by (simp_all add: passes_filters_def)
    with Some Inr that show ?thesis by simp
  qed
qed

lemma process_assignment_settles:
  assumes "process_assignment N parse cfg cls now wk a st = Done st'"
    and "passes_filters parse now wk a"
  shows "settled a st'"
proof -
  from assms(2) obtain s due where d: "due_at a = Some s" "s \<noteq> []"
    "parse (replace ''Z'' ''+00:00'' s) = Inr due" "in_window now wk due = Inr True"
    by (rule passes_filtersD)
  have sd: "sync_decision N cfg cls a due st = Done st'"
    using assms(1) d by (simp add: process_assignment_def)
  show ?thesis
  proof (cases "canvas_id a \<in> existing_canvas_ids st")
    case True
    with sd have "st' = st" by (simp add: sync_decision_def)
    with True show ?thesis by (simp add: settled_def)
  next
    case False
    show ?thesis
    proof (cases "dt_add due (timedelta_minutes 30)")
      case (Inl e)
      with sd False show ?thesis by (simp add: sync_decision_def)
    next
      case (Inr end_at)
      let ?rec = "build_record cfg cls a due end_at (canvas_id a)"
      have id: "r_canvas_id ?rec = canvas_id a" by (simp add: build_record_def)
      from sd False Inr have st': "st' = try_create N ?rec st" by (simp add: sync_decision_def)
      from try_create_shape [of N ?rec st] obtain ev where
        t: "trace (try_create N ?rec st) = trace st @ [CreateCall ?rec, ev]"
        and ev: "(ev = Added (r_canvas_id ?rec)
             \<and> existing_canvas_ids (try_create N ?rec st)
                 = insert (r_canvas_id ?rec) (existing_canvas_ids st))
          \<or> ((\<exists>e. ev = CreateFailed (r_canvas_id ?rec) e)
             \<and> existing_canvas_ids (try_create N ?rec st) = existing_canvas_ids st)"
        by (elim exE conjE)
      from ev show ?thesis
      proof (elim disjE conjE exE)
        assume "existing_canvas_ids (try_create N ?rec st)
                 = insert (r_canvas_id ?rec) (existing_canvas_ids st)"
        then show ?thesis by (simp add: settled_def st' id)
      next
        fix e assume "ev = CreateFailed (r_canvas_id ?rec) e"
        then have "canvas_id a \<in> set (failed (trace (try_create N ?rec st)))"
          by (simp add: t id)
        then show ?thesis by (simp add: settled_def st')
      qed
    qed
  qed
qed

lemma course_settles:
  assumes "process_course N C parse cfg now wk c st = Done st'"
    and "name_map cfg (c_name c) \<noteq> None"
  shows "\<forall>a\<in>set (fst (get_assignments C c)). passes_filters parse now wk a \<longrightarrow> settled a st'"
proof -
  from assms(2) obtain cls where cls: "name_map cfg (c_name c) = Some cls" by (cases "name_map cfg (c_name c)") simp_all
  let ?body = "process_assignment N parse cfg cls now wk"
  have loop: "for_each ?body (fst (get_assignments C c)) (snd (get_assignments C c))
      (emit (GetAssignments c) st) = Done st'"
    using assms(1) cls by (simp add: process_course_def)
  have step: "\<And>x s s'. x \<in> set (fst (get_assignments C c)) \<Longrightarrow> ?body x s = Done s' \<Longrightarrow>
      passes_filters parse now wk x \<longrightarrow> settled x s'"
    by (intro impI) (rule process_assignment_settles)
  have mono: "\<And>x y s s'. passes_filters parse now wk x \<longrightarrow> settled x s \<Longrightarrow>
      y \<in> set (fst (get_assignments C c)) \<Longrightarrow> ?body y s = Done s' \<Longrightarrow>
      passes_filters parse now wk x \<longrightarrow> settled x s'"
  proof (intro impI)
    fix x y s s'
    assume q: "passes_filters parse now wk x \<longrightarrow> settled x s" and b: "?body y s = Done s'"
      and p: "passes_filters parse now wk x"
    have "dedup_rel s (state_of (?body y s))" by (rule process_assignment_dedup)
    then have "dedup_rel s s'" by (simp add: b)
    moreover from q p have "settled x s" by simp
    ultimately show "settled x s'" by (rule dedup_rel_settled)
  qed
  show ?thesis
    by (rule for_each_Done_all
        [where Q = "\<lambda>x s. passes_filters parse now wk x \<longrightarrow> settled x s", OF loop step mono])
qed

lemma pass_settles:
  assumes "sync_pass N C parse cfg T st = Done st'"
  shows "\<forall>c\<in>set (fst (get_courses C)). name_map cfg (c_name c) \<noteq> None \<longrightarrow>
    (\<forall>a\<in>set (fst (get_assignments C c)).
       passes_filters parse (Aware T 0) (Aware (T + timedelta_days 7) 0) a \<longrightarrow> settled a st')"
proof -
  let ?now = "Aware T 0" and ?wk = "Aware (T + timedelta_days 7) 0"
  have wk: "dt_add (Aware T 0) (timedelta_days 7) = Inr ?wk"
  proof (cases "dt_add (Aware T 0) (timedelta_days 7)")
    case (Inl e)
    with assms show ?thesis by (simp add: sync_pass_def)
  next
    case (Inr x)
    then show ?thesis by (simp split: if_splits)
  qed
  let ?body = "process_course N C parse cfg ?now ?wk"
  let ?Q = "\<lambda>c s. name_map cfg (c_name c) \<noteq> None \<longrightarrow>
    (\<forall>a\<in>set (fst (get_assignments C c)). passes_filters parse ?now ?wk a \<longrightarrow> settled a s)"
  have loop: "for_each ?body (fst (get_courses C)) (snd (get_courses C)) (emit GetCourses st)
      = Done st'"
    using assms wk by (simp add: sync_pass_def)
  have step: "\<And>x s s'. x \<in> set (fst (get_courses C)) \<Longrightarrow> ?body x s = Done s' \<Longrightarrow> ?Q x s'"
    by (intro impI) (rule course_settles)
  have mono: "\<And>x y s s'. ?Q x s \<Longrightarrow> y \<in> set (fst (get_courses C)) \<Longrightarrow> ?body y s = Done s' \<Longrightarrow>
      ?Q x s'"
  proof (intro impI ballI)
    fix x y s s' a
    assume q: "?Q x s" and b: "?body y s = Done s'"
      and m: "name_map cfg (c_name x) \<noteq> None" and a: "a \<in> set (fst (get_assignments C x))"
      and p: "passes_filters parse ?now ?wk a"
    have "dedup_rel s (state_of (?body y s))" by (rule process_course_dedup)
    then have "dedup_rel s s'" by (simp add: b)
    moreover from q m a p have "settled a s" by simp
    ultimately show "settled a s'" by (rule dedup_rel_settled)
  qed
  show ?thesis
    by (rule for_each_Done_all [where Q = ?Q, OF loop step mono])
qed

lemma idle_refl: "idle G st st"
  by (simp add: idle_def)

lemma idle_trans:
  assumes "idle G a b" and "idle G b c"
  shows "idle G a c"
  unfolding idle_def
proof (intro impI)
  assume g: "G \<subseteq> existing_canvas_ids a"
  with assms(1) have ib: "existing_canvas_ids b = existing_canvas_ids a"
    and "\<exists>es. trace b = trace a @ es \<and> create_calls es = []"
    unfolding idle_def by simp_all
  then obtain es1 where 1: "trace b = trace a @ es1" "create_calls es1 = []" by (elim exE conjE)
  from g ib have "G \<subseteq> existing_canvas_ids b" by simp
  with assms(2) have ic: "existing_canvas_ids c = existing_canvas_ids b"
    and "\<exists>es. trace c = trace b @ es \<and> create_calls es = []"
    unfolding idle_def by simp_all
  then obtain es2 where 2: "trace c = trace b @ es2" "create_calls es2 = []" by (elim exE conjE)
  have t: "trace c = trace a @ (es1 @ es2)" using 1(1) 2(1) by simp
  have cc: "create_calls (es1 @ es2) = []" using 1(2) 2(2) by simp
  have i: "existing_canvas_ids c = existing_canvas_ids a" using ib ic by simp
  show "existing_canvas_ids c = existing_canvas_ids a
        \<and> (\<exists>es. trace c = trace a @ es \<and> create_calls es = [])"
    by (intro conjI i exI [of _ "es1 @ es2"] t cc)
qed

lemma idle_emit: "create_calls [ev] = [] \<Longrightarrow> idle G st (emit ev st)"
  unfolding idle_def emit_def by (intro impI conjI exI [of _ "[ev]"]) simp_all

lemma not_passes_unchanged:
  assumes "\<not> passes_filters parse now wk a"
  shows "state_of (process_assignment N parse cfg cls now wk a st) = st"
proof (cases "due_at a")
  case None
  then show ?thesis by (simp add: process_assignment_def)
next
  case (Some s)
  show ?thesis
  proof (cases "s = []")
    case True
    with Some show ?thesis by (simp add: process_assignment_def)
  next
    case ne: False
    show ?thesis
    proof (cases "parse (replace ''Z'' ''+00:00'' s)")
      case (Inl e)
      with Some ne show ?thesis by (simp add: process_assignment_def)
    next
      case (Inr due)
      show ?thesis
      proof (cases "in_window now wk due")
        case (Inl e)
        with Some ne Inr show ?thesis by (simp add: process_assignment_def)
      next
        case w: (Inr inside)
        from assms Some ne Inr w have "\<not> inside" by (simp add: passes_filters_def)
        with Some ne Inr w show ?thesis by (simp add: process_assignment_def)
      qed
    qed
  qed
qed

lemma passes_known:
  assumes "passes_filters parse now wk a" and "canvas_id a \<in> existing_canvas_ids st"
  shows "process_assignment N parse cfg cls now wk a st = Done st"
proof -
  from assms(1) obtain s due where d: "due_at a = Some s" "s \<noteq> []"
    "parse (replace ''Z'' ''+00:00'' s) = Inr due" "in_window now wk due = Inr True"
    by (rule passes_filtersD)
  then show ?thesis using assms(2) by (simp add: process_assignment_def sync_decision_def)
qed

lemma process_assignment_idle:
  assumes "passes_filters parse now wk a \<longrightarrow> canvas_id a \<in> G"
  shows "idle G st (state_of (process_assignment N parse cfg cls now wk a st))"
proof (cases "passes_filters parse now wk a")
  case False
  then show ?thesis by (simp add: not_passes_unchanged idle_refl)
next
  case True
  show ?thesis
    unfolding idle_def
  proof (intro impI)
    assume g: "G \<subseteq> existing_canvas_ids st"
    from True assms have "canvas_id a \<in> G" by simp
    with g have "canvas_id a \<in> existing_canvas_ids st" by (auto simp: subset_iff)
    from passes_known [OF True this]
    have "state_of (process_assignment N parse cfg cls now wk a st) = st" by simp
    then show "existing_canvas_ids (state_of (process_assignment N parse cfg cls now wk a st))
          = existing_canvas_ids st
        \<and> (\<exists>es. trace (state_of (process_assignment N parse cfg cls now wk a st)) = trace st @ es
             \<and> create_calls es = [])"
      by simp
  qed
qed

lemma process_course_idle:
  assumes "name_map cfg (c_name c) \<noteq> None \<longrightarrow>
    (\<forall>a\<in>set (fst (get_assignments C c)). passes_filters parse now wk a \<longrightarrow> canvas_id a \<in> G)"
  shows "idle G st (state_of (process_course N C parse cfg now wk c st))"
proof (cases "name_map cfg (c_name c)")
  case None
  then show ?thesis by (simp add: process_course_def idle_refl)
next
  case (Some cls)
  with assms have k: "\<And>a. a \<in> set (fst (get_assignments C c)) \<Longrightarrow>
      passes_filters parse now wk a \<longrightarrow> canvas_id a \<in> G"
    by simp
  have 1: "idle G st (emit (GetAssignments c) st)" by (rule idle_emit) simp
  have 2: "idle G (emit (GetAssignments c) st)
      (state_of (for_each (process_assignment N parse cfg cls now wk)
         (fst (get_assignments C c)) (snd (get_assignments C c)) (emit (GetAssignments c) st)))"
  proof (rule for_each_rel [where R = "idle G"])
    show "\<And>s. idle G s s" by (rule idle_refl)
    show "\<And>a b c. idle G a b \<Longrightarrow> idle G b c \<Longrightarrow> idle G a c" by (rule idle_trans)
    show "\<And>x s. x \<in> set (fst (get_assignments C c)) \<Longrightarrow>
        idle G s (state_of (process_assignment N parse cfg cls now wk x s))"
      by (rule process_assignment_idle) (rule k)
  qed
  from idle_trans [OF 1 2] Some show ?thesis by (simp add: process_course_def)
qed

lemma sync_pass_idle:
  assumes "\<forall>c\<in>set (fst (get_courses C)). name_map cfg (c_name c) \<noteq> None \<longrightarrow>
    (\<forall>a\<in>set (fst (get_assignments C c)).
       passes_filters parse (Aware T 0) (Aware (T + timedelta_days 7) 0) a \<longrightarrow> canvas_id a \<in> G)"
  shows "idle G st (state_of (sync_pass N C parse cfg T st))"
proof (cases "dt_add (Aware T 0) (timedelta_days 7)")
  case (Inl e)
  then show ?thesis by (simp add: sync_pass_def idle_refl)
next
  case (Inr wk)
  then have wk: "wk = Aware (T + timedelta_days 7) 0" by (simp split: if_splits)
  have 1: "idle G st (emit GetCourses st)" by (rule idle_emit) simp
  have 2: "idle G (emit GetCourses st)
      (state_of (for_each (process_course N C parse cfg (Aware T 0) wk)
         (fst (get_courses C)) (snd (get_courses C)) (emit GetCourses st)))"
  proof (rule for_each_rel [where R = "idle G"])
    show "\<And>s. idle G s s" by (rule idle_refl)
    show "\<And>a b c. idle G a b \<Longrightarrow> idle G b c \<Longrightarrow> idle G a c" by (rule idle_trans)
    show "\<And>x s. x \<in> set (fst (get_courses C)) \<Longrightarrow>
        idle G s (state_of (process_course N C parse cfg (Aware T 0) wk x s))"
      unfolding wk using assms by (intro process_course_idle) simp
  qed
  from idle_trans [OF 1 2] Inr show ?thesis by (simp add: sync_pass_def)
qed

text \<open>
  C5, as amended. Take a first run at the clock reading \<open>T1\<close> that ends without
  raising and in which no create call failed, and a second run at \<open>T2\<close> on the same
  source whose baseline load returns a set holding every id the first run held at its
  end: its own baseline and the ids it created. If every assignment of a mapped course
  that passes the due-date and window filters of the second run passed those of the
  first, as when both runs use the same window, then the second run issues no create
  call and ends with the set it loaded.
\<close>

theorem second_run_idle:
  assumes "run N C parse cfg T1 w = Some (Done st1)"
    and "failed (trace st1) = []"
    and "fetch_existing_canvas_ids N (NOTION_DATABASE_ID cfg) (world st1) = Some (Done st2)"
    and "existing_canvas_ids st1 \<subseteq> existing_canvas_ids st2"
    and "\<forall>c\<in>set (fst (get_courses C)). name_map cfg (c_name c) \<noteq> None \<longrightarrow>
      (\<forall>a\<in>set (fst (get_assignments C c)).
         passes_filters parse (Aware T2 0) (Aware (T2 + timedelta_days 7) 0) a \<longrightarrow>
         passes_filters parse (Aware T1 0) (Aware (T1 + timedelta_days 7) 0) a)"
  shows "\<exists>r es. run_twice N C parse cfg T1 T2 w = Some r
     \<and> trace (state_of r) = trace st2 @ es
     \<and> create_calls es = []
     \<and> existing_canvas_ids (state_of r) = existing_canvas_ids st2"
proof -
  from assms(1) obtain st0 where
    st0: "sync_pass N C parse cfg T1 st0 = Done st1"
    by (auto simp: run_def split: option.splits result.splits)
  have settled1: "\<forall>c\<in>set (fst (get_courses C)). name_map cfg (c_name c) \<noteq> None \<longrightarrow>
    (\<forall>a\<in>set (fst (get_assignments C c)).
       passes_filters parse (Aware T1 0) (Aware (T1 + timedelta_days 7) 0) a \<longrightarrow> settled a st1)"
    by (rule pass_settles [OF st0])
  have known: "\<forall>c\<in>set (fst (get_courses C)). name_map cfg (c_name c) \<noteq> None \<longrightarrow>
    (\<forall>a\<in>set (fst (get_assignments C c)).
       passes_filters parse (Aware T2 0) (Aware (T2 + timedelta_days 7) 0) a \<longrightarrow>
       canvas_id a \<in> existing_canvas_ids st1)"
  proof (intro ballI impI)
    fix c a
    assume c: "c \<in> set (fst (get_courses C))" and m: "name_map cfg (c_name c) \<noteq> None"
      and a: "a \<in> set (fst (get_assignments C c))"
      and p2: "passes_filters parse (Aware T2 0) (Aware (T2 + timedelta_days 7) 0) a"
    from assms(5) c m a p2
    have p1: "passes_filters parse (Aware T1 0) (Aware (T1 + timedelta_days 7) 0) a" by simp
    from settled1 c m a p1 have "settled a st1" by simp
    then show "canvas_id a \<in> existing_canvas_ids st1"
      using assms(2) by (simp add: settled_def)
  qed
  let ?r = "sync_pass N C parse cfg T2 st2"
  have "idle (existing_canvas_ids st1) st2 (state_of ?r)"
    by (rule sync_pass_idle [OF known])
  with assms(4) have i: "existing_canvas_ids (state_of ?r) = existing_canvas_ids st2"
    and "\<exists>es. trace (state_of ?r) = trace st2 @ es \<and> create_calls es = []"
    unfolding idle_def by simp_all
  then obtain es where es: "trace (state_of ?r) = trace st2 @ es" "create_calls es = []"
    by (elim exE conjE)
  have r2: "run_twice N C parse cfg T1 T2 w = Some ?r"
    using assms(1,3) by (simp add: run_twice_def run_def)
  show ?thesis by (intro exI [of _ ?r] exI [of _ es] conjI r2 es i)
qed

lemma fetch_after_failed_create:
  "fetch_existing_canvas_ids (sim_notion [] cf) ''db'' \<lparr>pages = [], n_queries = 1, n_creates = 1\<rparr>
     = Some (Done \<lparr>existing_canvas_ids = {},
                   world = \<lparr>pages = [], n_queries = 2, n_creates = 1\<rparr>,
                   trace = [QueryCall None 100]\<rparr>)"
  by (simp add: fetch_existing_canvas_ids_def fetch_loop.simps sim_notion_def sim_query_def emit_def)

lemma first_run_failed:
  "run (sim_notion [] [0]) (canvas_of [homework 7 ''2024-01-03T12:00:00Z''] [])
     fromisoformat demo_cfg demo_now (sim_store [])
   = Some (Done \<lparr>existing_canvas_ids = {},
                 world = \<lparr>pages = [], n_queries = 1, n_creates = 1\<rparr>,
                 trace = [QueryCall None 100, GetCourses, GetAssignments algebra,
                          CreateCall (planned 7), CreateFailed ''7'' (ClientError ''create'')]\<rparr>)"
  unfolding run_after_empty_load
  by (simp add: loaded_empty_def pass_defs demo_defs parse_defs str_digits planned_def)

lemma first_run_outside:
  "run (sim_notion [] []) (canvas_of [homework 7 ''2024-01-08T00:00:01Z''] [])
     fromisoformat demo_cfg demo_now (sim_store [])
   = Some (Done stopped_at_algebra)"
  unfolding run_after_empty_load
  by (simp add: loaded_empty_def stopped_at_algebra_def pass_defs demo_defs parse_defs str_digits)

lemma fetch_after_skip:
  "fetch_existing_canvas_ids (sim_notion [] cf) ''db'' \<lparr>pages = [], n_queries = 1, n_creates = 0\<rparr>
     = Some (Done \<lparr>existing_canvas_ids = {},
                   world = \<lparr>pages = [], n_queries = 2, n_creates = 0\<rparr>,
                   trace = [QueryCall None 100]\<rparr>)"
  by (simp add: fetch_existing_canvas_ids_def fetch_loop.simps sim_notion_def sim_query_def emit_def)

text \<open>
  C5 as stated fails in two ways. When the one create call of the first run raises,
  the first run creates nothing, so every id it created is in the second baseline, and
  the second run on the same source issues a create call. And the window moves with
  the clock: an assignment due one second after the end of the first window is skipped
  by the first run and gets a create call in a second run one second later.
\<close>

theorem second_run_counterexample:
  "created (run_trace (run (sim_notion [] [0]) (canvas_of [homework 7 ''2024-01-03T12:00:00Z''] [])
      fromisoformat demo_cfg demo_now (sim_store []))) = []
   \<and> create_calls (run_trace (run_twice (sim_notion [] [0])
      (canvas_of [homework 7 ''2024-01-03T12:00:00Z''] [])
      fromisoformat demo_cfg demo_now demo_now (sim_store []))) = [''7'']
   \<and> create_calls (run_trace (run (sim_notion [] [])
      (canvas_of [homework 7 ''2024-01-08T00:00:01Z''] [])
      fromisoformat demo_cfg demo_now (sim_store []))) = []
   \<and> create_calls (run_trace (run_twice (sim_notion [] [])
      (canvas_of [homework 7 ''2024-01-08T00:00:01Z''] [])
      fromisoformat demo_cfg demo_now (demo_now + timedelta_seconds 1) (sim_store []))) = [''7'']"
proof -
  have a: "created (run_trace (run (sim_notion [] [0])
      (canvas_of [homework 7 ''2024-01-03T12:00:00Z''] [])
      fromisoformat demo_cfg demo_now (sim_store []))) = []"
    by (simp only: first_run_failed) (simp add: run_trace_def)
  have f: "fetch_existing_canvas_ids (sim_notion [] [0]) (NOTION_DATABASE_ID demo_cfg)
      \<lparr>pages = [], n_queries = 1, n_creates = 1\<rparr>
     = Some (Done \<lparr>existing_canvas_ids = {},
                   world = \<lparr>pages = [], n_queries = 2, n_creates = 1\<rparr>,
                   trace = [QueryCall None 100]\<rparr>)"
    using fetch_after_failed_create [of "[0]"] by (simp add: demo_cfg_def)
  have "run_twice (sim_notion [] [0]) (canvas_of [homework 7 ''2024-01-03T12:00:00Z''] [])
      fromisoformat demo_cfg demo_now demo_now (sim_store [])
    = Some (sync_pass (sim_notion [] [0]) (canvas_of [homework 7 ''2024-01-03T12:00:00Z''] [])
        fromisoformat demo_cfg demo_now
        \<lparr>existing_canvas_ids = {}, world = \<lparr>pages = [], n_queries = 2, n_creates = 1\<rparr>,
         trace = [QueryCall None 100]\<rparr>)"
    unfolding run_twice_def first_run_failed by (simp add: run_def f del: One_nat_def)
  then have b: "create_calls (run_trace (run_twice (sim_notion [] [0])
      (canvas_of [homework 7 ''2024-01-03T12:00:00Z''] [])
      fromisoformat demo_cfg demo_now demo_now (sim_store []))) = [''7'']"
    by (simp add: run_trace_def pass_defs demo_defs parse_defs str_digits)
  have c: "create_calls (run_trace (run (sim_notion [] [])
      (canvas_of [homework 7 ''2024-01-08T00:00:01Z''] [])
      fromisoformat demo_cfg demo_now (sim_store []))) = []"
    by (simp only: first_run_outside) (simp add: run_trace_def stopped_at_algebra_def)
  have g: "fetch_existing_canvas_ids (sim_notion [] []) (NOTION_DATABASE_ID demo_cfg)
      \<lparr>pages = [], n_queries = 1, n_creates = 0\<rparr>
     = Some (Done \<lparr>existing_canvas_ids = {},
                   world = \<lparr>pages = [], n_queries = 2, n_creates = 0\<rparr>,
                   trace = [QueryCall None 100]\<rparr>)"
    using fetch_after_skip [of "[]"] by (simp add: demo_cfg_def)
  have "run_twice (sim_notion [] []) (canvas_of [homework 7 ''2024-01-08T00:00:01Z''] [])
      fromisoformat demo_cfg demo_now (demo_now + timedelta_seconds 1) (sim_store [])
    = Some (sync_pass (sim_notion [] []) (canvas_of [homework 7 ''2024-01-08T00:00:01Z''] [])
        fromisoformat demo_cfg (demo_now + timedelta_seconds 1)
        \<lparr>existing_canvas_ids = {}, world = \<lparr>pages = [], n_queries = 2, n_creates = 0\<rparr>,
         trace = [QueryCall None 100]\<rparr>)"
    unfolding run_twice_def first_run_outside
    by (simp add: run_def g stopped_at_algebra_def del: One_nat_def)
  then have d: "create_calls (run_trace (run_twice (sim_notion [] [])
      (canvas_of [homework 7 ''2024-01-08T00:00:01Z''] [])
      fromisoformat demo_cfg demo_now (demo_now + timedelta_seconds 1) (sim_store []))) = [''7'']"
    by (simp add: run_trace_def pass_defs demo_defs parse_defs str_digits timedelta_seconds_def)
  show ?thesis by (intro conjI a b c d)
qed

lemma first_run_ok:
  "run (sim_notion [] [])
     (canvas_of [homework 7 ''2024-01-03T12:00:00Z'', homework 8 ''2024-01-03T12:00:00Z''] [])
     fromisoformat demo_cfg demo_now (sim_store [])
   = Some (Done first_run_done)"
  unfolding run_after_empty_load
  by (simp add: loaded_empty_def pass_defs demo_defs parse_defs str_digits planned_def
      first_run_done_def)

lemma second_load:
  "fetch_existing_canvas_ids (sim_notion [] []) (NOTION_DATABASE_ID demo_cfg) (world first_run_done)
     = Some (Done second_baseline)"
  by (simp add: fetch_existing_canvas_ids_def fetch_loop.simps sim_notion_def sim_query_def emit_def
      first_run_done_def second_baseline_def page_with_id_def demo_cfg_def)

theorem second_run_idle_witness:
  "run (sim_notion [] [])
     (canvas_of [homework 7 ''2024-01-03T12:00:00Z'', homework 8 ''2024-01-03T12:00:00Z''] [])
     fromisoformat demo_cfg demo_now (sim_store [])
   = Some (Done first_run_done)
   \<and> failed (trace first_run_done) = []
   \<and> fetch_existing_canvas_ids (sim_notion [] []) (NOTION_DATABASE_ID demo_cfg)
        (world first_run_done) = Some (Done second_baseline)
   \<and> existing_canvas_ids first_run_done = existing_canvas_ids second_baseline
   \<and> (\<exists>r es. run_twice (sim_notion [] [])
          (canvas_of [homework 7 ''2024-01-03T12:00:00Z'', homework 8 ''2024-01-03T12:00:00Z''] [])
          fromisoformat demo_cfg demo_now demo_now (sim_store []) = Some r
        \<and> trace (state_of r) = trace second_baseline @ es
        \<and> create_calls es = []
        \<and> existing_canvas_ids (state_of r) = existing_canvas_ids second_baseline)"
proof -
  let ?C = "canvas_of [homework 7 ''2024-01-03T12:00:00Z'', homework 8 ''2024-01-03T12:00:00Z''] []"
  have h2: "failed (trace first_run_done) = []" by (simp add: first_run_done_def)
  have eq: "existing_canvas_ids first_run_done = existing_canvas_ids second_baseline"
    by (simp add: first_run_done_def second_baseline_def)
  have h4: "existing_canvas_ids first_run_done \<subseteq> existing_canvas_ids second_baseline"
    by (simp only: eq subset_refl)
  have h5: "\<forall>c\<in>set (fst (get_courses ?C)). name_map demo_cfg (c_name c) \<noteq> None \<longrightarrow>
      (\<forall>a\<in>set (fst (get_assignments ?C c)).
         passes_filters fromisoformat (Aware demo_now 0) (Aware (demo_now + timedelta_days 7) 0) a \<longrightarrow>
         passes_filters fromisoformat (Aware demo_now 0) (Aware (demo_now + timedelta_days 7) 0) a)"
    by (intro ballI impI)
  show ?thesis
    by (intro conjI first_run_ok h2 second_load eq
        second_run_idle [OF first_run_ok h2 second_load h4 h5])
qed

end
